theory Spec2Isabelle
  imports Main "HOL-Library.Multiset"
begin

section \<open>JavaScript strings and numbers\<close>

text \<open>
  A JavaScript string is a sequence of UTF-16 code units; \<open>length\<close> counts code
  units.  The texts handled by the bot are Cyrillic, so a string is modelled as the list
  of its code units (natural numbers below 65536).  ASCII literals are written through
  \<open>ascii\<close>; Cyrillic literals are written as numerals, with the transliterated text in
  a comment.
\<close>

type_synonym jsstring = "nat list"

definition ascii :: "string \<Rightarrow> jsstring" where
  "ascii s = map of_char s"

text \<open>
  Number-to-string conversion of template literals, for integers (decimal digits, a
  leading minus sign for negative values).
\<close>

fun show_nat :: "nat \<Rightarrow> jsstring" where
  "show_nat n = (if n < 10 then [48 + n] else show_nat (n div 10) @ [48 + n mod 10])"

declare show_nat.simps [simp del]

definition show_int :: "int \<Rightarrow> jsstring" where
  "show_int i = (if i < 0 then 45 # show_nat (nat (- i)) else show_nat (nat i))"

section \<open>Stats cache (StatsService)\<close>

text \<open>
  \<open>getCacheKey(chatId, period, userId?)\<close>: the optional \<open>userId\<close> is \<open>None\<close> when the
  argument is left out.  The test \<open>if (userId)\<close> is JavaScript truthiness: a number is
  truthy iff it is not zero.
\<close>

definition truthy_num :: "int option \<Rightarrow> bool" where
  "truthy_num v = (case v of None \<Rightarrow> False | Some n \<Rightarrow> n \<noteq> 0)"

definition getCacheKey :: "int \<Rightarrow> jsstring \<Rightarrow> int option \<Rightarrow> jsstring" where
  "getCacheKey chatId period userId =
     (if truthy_num userId
      then ascii ''stats:chat:'' @ show_int chatId @ ascii '':user:'' @ show_int (the userId)
             @ ascii '':period:'' @ period
      else ascii ''stats:chat:'' @ show_int chatId @ ascii '':period:'' @ period)"

text \<open>
  The values that \<open>JSON.stringify\<close> writes to Redis and \<open>JSON.parse\<close> reads back.
  \<open>JSON.parse\<close> is untyped, so a cached chat snapshot read through the user path is
  returned as it is.
\<close>

record top_user =
  tu_user_id :: int
  tu_count :: int
  tu_username :: "jsstring option"
  tu_first_name :: "jsstring option"

record StatsResult =
  topUsers :: "top_user list"
  totalMessages :: int
  totalUsers :: int

record UserStatsResult =
  us_userId :: int
  us_username :: "jsstring option"
  us_firstName :: "jsstring option"
  us_messageCount :: int
  us_period :: jsstring

datatype cached = ChatSnapshot StatsResult | UserSnapshot UserStatsResult

text \<open>
  The Redis client: a key-value store that is either reachable or not.  When it is not,
  \<open>get\<close> and \<open>setEx\<close> throw; both callers catch and log the error.  Expiry after
  \<open>CACHE_TTL\<close> seconds is not modelled: the state describes the store within one
  lifetime of its entries.
\<close>

record redis =
  reachable :: bool
  store :: "jsstring \<rightharpoonup> cached"

definition redis_get :: "redis \<Rightarrow> jsstring \<Rightarrow> cached option" where
  "redis_get r k = (if reachable r then store r k else None)"

definition redis_setEx :: "redis \<Rightarrow> jsstring \<Rightarrow> cached \<Rightarrow> redis" where
  "redis_setEx r k v = (if reachable r then r\<lparr>store := (store r)(k \<mapsto> v)\<rparr> else r)"

text \<open>
  \<open>getChatStats\<close> and \<open>getUserStats\<close>, cache-aside.  The queries of the message store
  behind them are parameters: \<open>chatQuery\<close> stands for the pair of
  \<open>Message.getTopUsersByMessageCount\<close> and \<open>Message.getStats\<close>, \<open>userQuery\<close> for
  \<open>User.findByTelegramId\<close> followed by \<open>Message.countByUserId\<close> (\<open>None\<close> when the user
  is unknown).  The result is the value returned (\<open>None\<close> for \<open>null\<close>) and the new
  state of the cache.
\<close>

definition getChatStats ::
  "(int \<Rightarrow> jsstring \<Rightarrow> StatsResult) \<Rightarrow> redis \<Rightarrow> int \<Rightarrow> jsstring \<Rightarrow> cached option \<times> redis" where
  "getChatStats chatQuery r chatId period =
     (let cacheKey = getCacheKey chatId period None in
      case redis_get r cacheKey of
        Some c \<Rightarrow> (Some c, r)
      | None \<Rightarrow>
          (let result = ChatSnapshot (chatQuery chatId period)
           in (Some result, redis_setEx r cacheKey result)))"

definition getUserStats ::
  "(int \<Rightarrow> int \<Rightarrow> jsstring \<Rightarrow> UserStatsResult option) \<Rightarrow> redis \<Rightarrow> int \<Rightarrow> int \<Rightarrow> jsstring
     \<Rightarrow> cached option \<times> redis" where
  "getUserStats userQuery r chatId uid period =
     (let cacheKey = getCacheKey chatId period (Some uid) in
      case redis_get r cacheKey of
        Some c \<Rightarrow> (Some c, r)
      | None \<Rightarrow>
          (case userQuery chatId uid period of
             None \<Rightarrow> (None, r)
           | Some res \<Rightarrow> (Some (UserSnapshot res), redis_setEx r cacheKey (UserSnapshot res))))"

section \<open>Prompt building (createAnalysisPrompt)\<close>

text \<open>\<open>Array.prototype.join('\n')\<close>: the elements separated by a line feed (code unit 10).\<close>

fun join_nl :: "jsstring list \<Rightarrow> jsstring" where
  "join_nl [] = []"
| "join_nl [x] = x"
| "join_nl (x # y # ys) = x @ 10 # join_nl (y # ys)"

text \<open>
  \<open>xs.slice(-k)\<close> for a count \<open>k \<ge> 0\<close>: the start index is \<open>max (length xs - k) 0\<close> when
  \<open>k > 0\<close>; for \<open>k = 0\<close> the argument is \<open>-0\<close>, that is index 0, and the whole array is
  copied.
\<close>

definition slice_last :: "nat \<Rightarrow> 'a list \<Rightarrow> 'a list" where
  "slice_last k xs = (if k = 0 then xs else drop (length xs - k) xs)"

text \<open>
  \<open>Math.floor(n * 0.6)\<close> for an array length \<open>n\<close>.  The double nearest to 0.6 lies
  below it by less than \<open>3 * 10\<^sup>-\<^sup>1\<^sup>7\<close>; for a multiple of 5 the product rounds to the exact
  integer \<open>3 * n / 5\<close>, and otherwise \<open>3 * n / 5\<close> is at least 0.2 away from the next
  integer, so the floor of the double product is the integer quotient of \<open>3 * n\<close> by 5.
\<close>

definition floor_60_percent :: "nat \<Rightarrow> nat" where
  "floor_60_percent n = (3 * n) div 5"

text \<open>
  The body of \<open>createAnalysisPrompt\<close> up to the template: \<open>truncated\<close> is the list of
  messages that goes into the prompt, \<open>messagesText\<close> its joined text.  The same code is
  in the Qwen, Gemini and DeepSeek services and in the dashboard route, with
  \<open>maxLength = 6000\<close>; the digest uses it with 8000.
\<close>

definition truncated :: "nat \<Rightarrow> jsstring list \<Rightarrow> jsstring list" where
  "truncated maxLength messages =
     (if length (join_nl messages) > maxLength
      then slice_last (floor_60_percent (length messages)) messages
      else messages)"

definition messagesText :: "nat \<Rightarrow> jsstring list \<Rightarrow> jsstring" where
  "messagesText maxLength messages = join_nl (truncated maxLength messages)"

text \<open>
  \<open>displayName\<close>: the handle when it is a non-empty string, else the first name when it
  is a non-empty string, else the fixed label (\<open>Pol'zovatel'\<close>).
\<close>

definition truthy_str :: "jsstring option \<Rightarrow> bool" where
  "truthy_str v = (case v of None \<Rightarrow> False | Some s \<Rightarrow> s \<noteq> [])"

definition displayName :: "jsstring option \<Rightarrow> jsstring option \<Rightarrow> jsstring" where
  "displayName username firstName =
     (if truthy_str username then 64 # the username
      else if truthy_str firstName then the firstName
      else ([1055, 1086, 1083, 1100, 1079, 1086, 1074, 1072, 1090, 1077, 1083, 1100]))"

text \<open>The fixed template around the display name and the messages.\<close>

definition prompt_intro :: jsstring where
  "prompt_intro = [1055, 1088, 1086, 1072, 1085, 1072, 1083, 1080, 1079, 1080, 1088, 1091, 1081] @ ascii '' ''
       @ [1089, 1090, 1080, 1083, 1100] @ ascii '' '' @ [1086, 1073, 1097, 1077, 1085, 1080, 1103]
       @ ascii '' ''"

definition prompt_by_messages :: jsstring where
  "prompt_by_messages = ascii '' '' @ [1087, 1086] @ ascii '' ''
       @ [1089, 1086, 1086, 1073, 1097, 1077, 1085, 1080, 1103, 1084] @ ascii '':'' @ [10, 10]"

definition prompt_format :: jsstring where
  "prompt_format =
     [10, 10, 1060, 1086, 1088, 1084, 1072, 1090] @ ascii '' ''
       @ [1086, 1090, 1074, 1077, 1090, 1072] @ ascii '' ('' @ [1090, 1086, 1083, 1100, 1082, 1086]
       @ ascii '' '' @ [1090, 1077, 1082, 1089, 1090] @ ascii '', '' @ [1073, 1077, 1079]
       @ ascii '' markdown):'' @ [10, 1057, 1090, 1080, 1083, 1100] @ ascii '': [''
       @ [1092, 1086, 1088, 1084, 1072, 1083, 1100, 1085, 1099, 1081] @ ascii ''/''
       @ [1085, 1077, 1092, 1086, 1088, 1084, 1072, 1083, 1100, 1085, 1099, 1081] @ ascii '', ''
       @ [1076, 1088, 1091, 1078, 1077, 1083, 1102, 1073, 1085, 1099, 1081] @ ascii ''/''
       @ [1089, 1090, 1088, 1086, 1075, 1080, 1081] @ ascii '']'' @ [10, 1058, 1077, 1084, 1099]
       @ ascii '': ['' @ [1086, 1089, 1085, 1086, 1074, 1085, 1099, 1077] @ ascii '' ''
       @ [1090, 1077, 1084, 1099] @ ascii '' '' @ [1095, 1077, 1088, 1077, 1079] @ ascii '' ''
       @ [1079, 1072, 1087, 1103, 1090, 1091, 1102] @ ascii '']''
       @ [10, 1040, 1082, 1090, 1080, 1074, 1085, 1086, 1089, 1090, 1100] @ ascii '': [''
       @ [1074, 1088, 1077, 1084, 1103] @ ascii '' '' @ [1089, 1091, 1090, 1086, 1082] @ ascii '' ''
       @ [1072, 1082, 1090, 1080, 1074, 1085, 1086, 1089, 1090, 1080] @ ascii '', ''
       @ [1077, 1089, 1083, 1080] @ ascii '' '' @ [1074, 1080, 1076, 1085, 1086] @ ascii '']''
       @ [10, 1058, 1086, 1085, 1072, 1083, 1100, 1085, 1086, 1089, 1090, 1100] @ ascii '': [''
       @ [1087, 1086, 1079, 1080, 1090, 1080, 1074, 1085, 1072, 1103] @ ascii ''/''
       @ [1085, 1077, 1081, 1090, 1088, 1072, 1083, 1100, 1085, 1072, 1103] @ ascii ''/''
       @ [1085, 1077, 1075, 1072, 1090, 1080, 1074, 1085, 1072, 1103] @ ascii '']''
       @ [10, 1054, 1089, 1086, 1073, 1077, 1085, 1085, 1086, 1089, 1090, 1080] @ ascii '': [''
       @ [1095, 1072, 1089, 1090, 1099, 1077] @ ascii '' '' @ [1089, 1083, 1086, 1074, 1072]
       @ ascii '', '' @ [1101, 1084, 1086, 1076, 1079, 1080] @ ascii '', ''
       @ [1074, 1099, 1088, 1072, 1078, 1077, 1085, 1080, 1103] @ ascii '']''
       @ [10, 10, 1050, 1088, 1072, 1090, 1082, 1086] @ ascii '' '' @ [1080] @ ascii '' ''
       @ [1082, 1086, 1085, 1082, 1088, 1077, 1090, 1085, 1086] @ ascii ''.''"

definition createAnalysisPrompt :: "jsstring list \<Rightarrow> jsstring option \<Rightarrow> jsstring option \<Rightarrow> jsstring" where
  "createAnalysisPrompt messages username firstName =
     prompt_intro @ displayName username firstName @ prompt_by_messages
       @ messagesText 6000 messages @ prompt_format"


section \<open>Response parser (parseAnalysisResponse)\<close>

text \<open>
  White space as \<open>String.prototype.trim\<close> and the regular expression class \<open>\s\<close>
  see it: the WhiteSpace and LineTerminator code units of ECMAScript.
\<close>

definition isWhiteSpace :: "nat \<Rightarrow> bool" where
  "isWhiteSpace c =
     (c \<in> set [9, 10, 11, 12, 13, 32, 160, 5760, 8232, 8233, 8239, 8287, 12288, 65279]
      \<or> (8192 \<le> c \<and> c \<le> 8202))"

definition trim :: "jsstring \<Rightarrow> jsstring" where
  "trim s = rev (dropWhile isWhiteSpace (rev (dropWhile isWhiteSpace s)))"

text \<open>\<open>s.split('\n')\<close>: the pieces between line feeds; an empty string gives one empty piece.\<close>

fun split_nl :: "jsstring \<Rightarrow> jsstring list" where
  "split_nl [] = [[]]"
| "split_nl (c # cs) =
     (if c = 10 then [] # split_nl cs
      else (case split_nl cs of [] \<Rightarrow> [[c]] | l # ls \<Rightarrow> (c # l) # ls))"

text \<open>
  \<open>toLowerCase\<close>, code unit by code unit, on the Latin and the basic Cyrillic capitals.
  The full Unicode mapping changes further letters, but it maps no other code unit to a
  basic Cyrillic small letter or to the colon, and the five labels below consist of
  these, so the test \<open>toLowerCase().startsWith(label)\<close> against them is the one of the
  source.
\<close>

definition toLowerCase_unit :: "nat \<Rightarrow> nat" where
  "toLowerCase_unit c =
     (if 65 \<le> c \<and> c \<le> 90 then c + 32
      else if 1040 \<le> c \<and> c \<le> 1071 then c + 32
      else if 1024 \<le> c \<and> c \<le> 1039 then c + 80
      else c)"

definition toLowerCase :: "jsstring \<Rightarrow> jsstring" where
  "toLowerCase s = map toLowerCase_unit s"

fun startsWith :: "jsstring \<Rightarrow> jsstring \<Rightarrow> bool" where
  "startsWith s [] = True"
| "startsWith [] (a # p) = False"
| "startsWith (c # s) (a # p) = (c = a \<and> startsWith s p)"

text \<open>\<open>s.includes(p)\<close>: \<open>p\<close> occurs in \<open>s\<close> as a contiguous piece.\<close>

fun includes_str :: "jsstring \<Rightarrow> jsstring \<Rightarrow> bool" where
  "includes_str [] p = (p = [])"
| "includes_str (c # s) p = (startsWith (c # s) p \<or> includes_str s p)"

text \<open>
  Case-insensitive matching of a regular expression without the \<open>u\<close> flag compares
  the upper-case images of the code units (\<open>Canonicalize\<close>).  The image is given on the
  Latin and basic Cyrillic small letters and on the Cyrillic letter variants
  U+1C80 to U+1C86, whose upper case is a basic Cyrillic capital; other code units are
  not mapped to a Latin or basic Cyrillic capital.
\<close>

definition canonicalize :: "nat \<Rightarrow> nat" where
  "canonicalize c =
     (if 97 \<le> c \<and> c \<le> 122 then c - 32
      else if 1072 \<le> c \<and> c \<le> 1103 then c - 32
      else if 1104 \<le> c \<and> c \<le> 1119 then c - 80
      else if c = 7296 then 1042
      else if c = 7297 then 1044
      else if c = 7298 then 1054
      else if c = 7299 then 1057
      else if c = 7300 \<or> c = 7301 then 1058
      else if c = 7302 then 1066
      else c)"

text \<open>
  \<open>line.replace(/^label\s*/i, '')\<close> for a literal label: when the line begins with the
  label, compared case-insensitively, the label and the white space after it are
  removed; otherwise the line is returned as it is.
\<close>

definition replace_label :: "jsstring \<Rightarrow> jsstring \<Rightarrow> jsstring" where
  "replace_label label line =
     (if length label \<le> length line
         \<and> map canonicalize (take (length label) line) = map canonicalize label
      then dropWhile isWhiteSpace (drop (length label) line)
      else line)"

text \<open>The five labels: \<open>stil':\<close>, \<open>temy:\<close>, \<open>aktivnost':\<close>, \<open>tonal'nost':\<close>, \<open>osobennosti:\<close>.\<close>

definition label_style :: jsstring where
  "label_style = [1089, 1090, 1080, 1083, 1100] @ ascii '':''"

definition label_topics :: jsstring where
  "label_topics = [1090, 1077, 1084, 1099] @ ascii '':''"

definition label_activity :: jsstring where
  "label_activity = [1072, 1082, 1090, 1080, 1074, 1085, 1086, 1089, 1090, 1100] @ ascii '':''"

definition label_tone :: jsstring where
  "label_tone = [1090, 1086, 1085, 1072, 1083, 1100, 1085, 1086, 1089, 1090, 1100] @ ascii '':''"

definition label_features :: jsstring where
  "label_features = [1086, 1089, 1086, 1073, 1077, 1085, 1085, 1086, 1089, 1090, 1080] @ ascii '':''"

text \<open>
  The values a field keeps when no line sets it: \<open>Ne ukazan\<close> (style), \<open>Ne ukazany\<close>
  (topics, features), \<open>Ne ukazana\<close> (activity, tone).
\<close>

definition not_specified_m :: jsstring where
  "not_specified_m = [1053, 1077] @ ascii '' '' @ [1091, 1082, 1072, 1079, 1072, 1085]"

definition not_specified_pl :: jsstring where
  "not_specified_pl = [1053, 1077] @ ascii '' '' @ [1091, 1082, 1072, 1079, 1072, 1085, 1099]"

definition not_specified_f :: jsstring where
  "not_specified_f = [1053, 1077] @ ascii '' '' @ [1091, 1082, 1072, 1079, 1072, 1085, 1072]"

record UserAnalysis =
  ua_style :: jsstring
  ua_topics :: jsstring
  ua_averageLength :: jsstring
  ua_activity :: jsstring
  ua_tone :: jsstring
  ua_features :: jsstring
  ua_messageCount :: nat
  ua_period :: jsstring

text \<open>The five local variables of the parsing loop.\<close>

record fields =
  f_style :: jsstring
  f_topics :: jsstring
  f_activity :: jsstring
  f_tone :: jsstring
  f_features :: jsstring

definition initial_fields :: fields where
  "initial_fields =
     \<lparr>f_style = not_specified_m, f_topics = not_specified_pl, f_activity = not_specified_f,
      f_tone = not_specified_f, f_features = not_specified_pl\<rparr>"

text \<open>One iteration of \<open>for (const line of lines)\<close>: the \<open>if\<close> / \<open>else if\<close> chain.\<close>

definition parse_line :: "fields \<Rightarrow> jsstring \<Rightarrow> fields" where
  "parse_line st line =
     (if startsWith (toLowerCase line) label_style
        then st\<lparr>f_style := trim (replace_label label_style line)\<rparr>
      else if startsWith (toLowerCase line) label_topics
        then st\<lparr>f_topics := trim (replace_label label_topics line)\<rparr>
      else if startsWith (toLowerCase line) label_activity
        then st\<lparr>f_activity := trim (replace_label label_activity line)\<rparr>
      else if startsWith (toLowerCase line) label_tone
        then st\<lparr>f_tone := trim (replace_label label_tone line)\<rparr>
      else if startsWith (toLowerCase line) label_features
        then st\<lparr>f_features := trim (replace_label label_features line)\<rparr>
      else st)"

text \<open>\<open>responseText.split('\n').map((line) => line.trim()).filter((line) => line)\<close>\<close>

definition response_lines :: "jsstring \<Rightarrow> jsstring list" where
  "response_lines responseText = filter (\<lambda>line. line \<noteq> []) (map trim (split_nl responseText))"

text \<open>
  \<open>parseAnalysisResponse\<close> of the Gemini and DeepSeek services and of the dashboard
  route; the Qwen service has the same statements inline.  The average length is
  rendered with the suffix \<open>simvolov\<close>, the period is \<open>vse vremya\<close>.
\<close>

definition period_all_time :: jsstring where
  "period_all_time = [1074, 1089, 1077] @ ascii '' '' @ [1074, 1088, 1077, 1084, 1103]"

definition parseAnalysisResponse :: "jsstring \<Rightarrow> nat \<Rightarrow> nat \<Rightarrow> UserAnalysis" where
  "parseAnalysisResponse responseText messageCount averageLength =
     (let st = foldl parse_line initial_fields (response_lines responseText)
      in \<lparr>ua_style = f_style st, ua_topics = f_topics st,
          ua_averageLength = show_nat averageLength @ (ascii '' '' @ [1089, 1080, 1084, 1074, 1086, 1083, 1086, 1074]),
          ua_activity = f_activity st, ua_tone = f_tone st, ua_features = f_features st,
          ua_messageCount = messageCount, ua_period = period_all_time\<rparr>)"

text \<open>
  The line the specification singles out for a label: the last of the lines whose
  lower-cased text begins with the label.
\<close>

definition last_labelled :: "jsstring \<Rightarrow> jsstring list \<Rightarrow> jsstring option" where
  "last_labelled label lines =
     (case rev (filter (\<lambda>line. startsWith (toLowerCase line) label) lines) of
        [] \<Rightarrow> None
      | line # _ \<Rightarrow> Some line)"

text \<open>
  The value of a field after the lines: the remainder of that line, trimmed, or the value
  the field had before when no line carries the label.
\<close>

definition field_of :: "jsstring \<Rightarrow> jsstring \<Rightarrow> jsstring list \<Rightarrow> jsstring" where
  "field_of label dflt lines =
     (case last_labelled label lines of None \<Rightarrow> dflt
      | Some line \<Rightarrow> trim (drop (length label) line))"

section \<open>Message store (User, Message)\<close>

text \<open>
  The two tables, as lists of rows in insertion order.  Identifiers, Telegram
  identifiers and timestamps are integers.  \<open>db_messages_id_seq\<close> is the last value the
  sequence behind \<open>messages.id\<close> has given out.
\<close>

record user_row =
  ur_id :: int
  ur_telegram_id :: int
  ur_username :: "jsstring option"
  ur_first_name :: "jsstring option"
  ur_last_name :: "jsstring option"

record message_row =
  mr_id :: int
  mr_user_id :: int
  mr_telegram_message_id :: int
  mr_chat_id :: int
  mr_text :: jsstring
  mr_created_at :: int

record database =
  db_users :: "user_row list"
  db_messages :: "message_row list"
  db_messages_id_seq :: int

text \<open>
  A thrown \<open>Error\<close>: its message and, for the errors of the Gemini client library, the
  HTTP status it carries.
\<close>

record js_error =
  err_message :: jsstring
  err_status :: "nat option"

definition Error :: "jsstring \<Rightarrow> js_error" where
  "Error m = \<lparr>err_message = m, err_status = None\<rparr>"

text \<open>\<open>User.findByTelegramId\<close>: \<open>result.rows[0] || null\<close>.\<close>

definition User_findByTelegramId :: "database \<Rightarrow> int \<Rightarrow> user_row option" where
  "User_findByTelegramId db telegramId = find (\<lambda>u. ur_telegram_id u = telegramId) (db_users db)"

text \<open>
  \<open>Message.create\<close>: \<open>INSERT ... ON CONFLICT (telegram_message_id, chat_id) DO NOTHING
  RETURNING *\<close>, and \<open>result.rows[0] || null\<close>.  The default of \<open>id\<close> takes the next
  value of the sequence before the conflict is looked for, so the sequence advances on
  a skipped insert too.  A row that is skipped is not checked against the foreign key;
  a row that would be inserted with a \<open>user_id\<close> that is not in \<open>users\<close> makes the
  statement fail.  \<open>now\<close> is \<open>CURRENT_TIMESTAMP\<close>.
\<close>

record CreateMessageData =
  cm_user_id :: int
  cm_telegram_message_id :: int
  cm_chat_id :: int
  cm_text :: jsstring

definition rows_with :: "database \<Rightarrow> int \<Rightarrow> int \<Rightarrow> message_row list" where
  "rows_with db telegram_message_id chat_id =
     filter (\<lambda>m. mr_telegram_message_id m = telegram_message_id \<and> mr_chat_id m = chat_id)
       (db_messages db)"

definition foreign_key_violation :: jsstring where
  "foreign_key_violation =
     ascii ''insert or update on table '' @ [34] @ ascii ''messages'' @ [34]
       @ ascii '' violates foreign key constraint '' @ [34] @ ascii ''messages_user_id_fkey''
       @ [34]"

definition Message_create ::
  "database \<Rightarrow> int \<Rightarrow> CreateMessageData \<Rightarrow> (js_error + message_row option) \<times> database" where
  "Message_create db now data =
     (let id = db_messages_id_seq db + 1;
          db' = db\<lparr>db_messages_id_seq := id\<rparr>;
          row = \<lparr>mr_id = id, mr_user_id = cm_user_id data,
                 mr_telegram_message_id = cm_telegram_message_id data,
                 mr_chat_id = cm_chat_id data, mr_text = cm_text data, mr_created_at = now\<rparr>
      in if rows_with db (cm_telegram_message_id data) (cm_chat_id data) \<noteq> []
         then (Inr None, db')
         else if find (\<lambda>u. ur_id u = cm_user_id data) (db_users db) = None
         then (Inl (Error foreign_key_violation), db')
         else (Inr (Some row), db'\<lparr>db_messages := db_messages db @ [row]\<rparr>))"

text \<open>A run of further inserts, each with its timestamp.\<close>

definition creates :: "database \<Rightarrow> (int \<times> CreateMessageData) list \<Rightarrow> database" where
  "creates db ops = foldl (\<lambda>d (now, data). snd (Message_create d now data)) db ops"

text \<open>
  \<open>Message.findByUserId(userId, { limit })\<close>, the only form the services use: the rows
  of the user, newest first, cut by \<open>LIMIT\<close> when \<open>options.limit\<close> is truthy.  The
  database rejects a negative \<open>LIMIT\<close>.  Rows with equal timestamps come in an order
  SQL leaves open; the model takes the one of a stable sort.
\<close>

definition negative_limit :: jsstring where
  "negative_limit = ascii ''LIMIT must not be negative''"

definition Message_findByUserId ::
  "database \<Rightarrow> int \<Rightarrow> int option \<Rightarrow> js_error + message_row list" where
  "Message_findByUserId db userId limit =
     (let rows = rev (sort_key mr_created_at (filter (\<lambda>m. mr_user_id m = userId) (db_messages db)))
      in if truthy_num limit
         then (if the limit < 0 then Inl (Error negative_limit)
               else Inr (take (nat (the limit)) rows))
         else Inr rows)"

section \<open>Provider clients\<close>

text \<open>
  \<open>getUserMessages(telegramUserId, limit)\<close>, the same in the three services (the
  default of \<open>limit\<close> differs, and \<open>analyzeUser\<close> always passes the limit).
\<close>

definition getUserMessages :: "database \<Rightarrow> int \<Rightarrow> int \<Rightarrow> js_error + jsstring list" where
  "getUserMessages db telegramUserId limit =
     (case User_findByTelegramId db telegramUserId of
        None \<Rightarrow> Inr []
      | Some user \<Rightarrow>
          (case Message_findByUserId db (ur_id user) (Some limit) of
             Inl e \<Rightarrow> Inl e
           | Inr rows \<Rightarrow> Inr (map mr_text rows)))"

text \<open>\<open>const limit = Math.min(options?.limit || 30, 30)\<close>\<close>

definition analysis_limit :: "int option \<Rightarrow> int" where
  "analysis_limit options_limit = min (if truthy_num options_limit then the options_limit else 30) 30"

text \<open>
  The record returned for a user without messages: \<open>Nedostatochno dannykh\<close> (style,
  activity, tone), \<open>Net soobshchenii dlya analiza\<close> (topics), \<open>Net dannykh\<close> (features).
\<close>

definition insufficient_data :: UserAnalysis where
  "insufficient_data =
     \<lparr>ua_style = ([1053, 1077, 1076, 1086, 1089, 1090, 1072, 1090, 1086, 1095, 1085, 1086] @ ascii '' '' @ [1076, 1072, 1085, 1085, 1099, 1093]),
      ua_topics = ([1053, 1077, 1090] @ ascii '' '' @ [1089, 1086, 1086, 1073, 1097, 1077, 1085, 1080, 1081] @ ascii '' '' @ [1076, 1083, 1103] @ ascii '' '' @ [1072, 1085, 1072, 1083, 1080, 1079, 1072]),
      ua_averageLength = ascii ''0'',
      ua_activity = ([1053, 1077, 1076, 1086, 1089, 1090, 1072, 1090, 1086, 1095, 1085, 1086] @ ascii '' '' @ [1076, 1072, 1085, 1085, 1099, 1093]),
      ua_tone = ([1053, 1077, 1076, 1086, 1089, 1090, 1072, 1090, 1086, 1095, 1085, 1086] @ ascii '' '' @ [1076, 1072, 1085, 1085, 1099, 1093]),
      ua_features = ([1053, 1077, 1090] @ ascii '' '' @ [1076, 1072, 1085, 1085, 1099, 1093]),
      ua_messageCount = 0,
      ua_period = period_all_time\<rparr>"

text \<open>\<open>Math.round(totalLength / messages.length)\<close> for a non-empty list.\<close>

definition averageLength :: "jsstring list \<Rightarrow> nat" where
  "averageLength messages =
     (2 * sum_list (map length messages) + length messages) div (2 * length messages)"


subsection \<open>DeepSeek\<close>

text \<open>
  The HTTP response of \<open>fetch\<close>: the status, the body as \<open>response.text()\<close> gives it,
  and what \<open>data.choices?.[0]?.message?.content\<close> evaluates to after
  \<open>response.json()\<close> (\<open>Inl\<close> when the body is not JSON).  \<open>response.ok\<close> holds for the
  statuses 200 to 299.
\<close>

record http_response =
  rs_status :: nat
  rs_text :: jsstring
  rs_content :: "js_error + jsstring option"

definition ok :: "http_response \<Rightarrow> bool" where
  "ok response = (200 \<le> rs_status response \<and> rs_status response \<le> 299)"

definition DEEPSEEK_INSUFFICIENT_BALANCE :: jsstring where
  "DEEPSEEK_INSUFFICIENT_BALANCE = ascii ''DEEPSEEK_INSUFFICIENT_BALANCE''"

definition deepseek_api_error :: "nat \<Rightarrow> jsstring \<Rightarrow> jsstring" where
  "deepseek_api_error status errorText =
     (ascii ''DeepSeek API '' @ [1086, 1096, 1080, 1073, 1082, 1072] @ ascii '': '') @ show_nat status @ ascii '' - '' @ errorText"

definition deepseek_key_missing :: jsstring where
  "deepseek_key_missing = ascii ''DEEPSEEK_API_KEY '' @ [1085, 1077] @ ascii '' '' @ [1091, 1089, 1090, 1072, 1085, 1086, 1074, 1083, 1077, 1085]"

definition deepseek_empty_answer :: jsstring where
  "deepseek_empty_answer = [1055, 1091, 1089, 1090, 1086, 1081] @ ascii '' '' @ [1086, 1090, 1074, 1077, 1090] @ ascii '' '' @ [1086, 1090] @ ascii '' DeepSeek API''"

text \<open>
  \<open>DeepSeekService.analyzeUser\<close>.  \<open>API_KEY\<close> is the configured key, \<open>fetch\<close> the
  answer of the completion endpoint to a request with the given prompt (\<open>Inl\<close> when the
  request itself fails).  The result comes with the list of the prompts sent to the
  endpoint, one entry for each HTTP request made.
\<close>

definition DeepSeekService_analyzeUser ::
  "jsstring option \<Rightarrow> (jsstring \<Rightarrow> js_error + http_response) \<Rightarrow> database \<Rightarrow> int \<Rightarrow> int option
     \<Rightarrow> (js_error + UserAnalysis option) \<times> jsstring list" where
  "DeepSeekService_analyzeUser API_KEY fetch db telegramUserId options_limit =
     (if \<not> truthy_str API_KEY then (Inl (Error deepseek_key_missing), [])
      else case User_findByTelegramId db telegramUserId of
        None \<Rightarrow> (Inr None, [])
      | Some user \<Rightarrow>
          (case getUserMessages db telegramUserId (analysis_limit options_limit) of
             Inl e \<Rightarrow> (Inl e, [])
           | Inr messages \<Rightarrow>
               if length messages = 0 then (Inr (Some insufficient_data), [])
               else
                 (let prompt = createAnalysisPrompt messages (ur_username user) (ur_first_name user)
                  in case fetch prompt of
                       Inl e \<Rightarrow> (Inl e, [prompt])
                     | Inr response \<Rightarrow>
                         if \<not> ok response
                         then (if rs_status response = 402
                               then (Inl (Error DEEPSEEK_INSUFFICIENT_BALANCE), [prompt])
                               else (Inl (Error (deepseek_api_error (rs_status response)
                                                   (rs_text response))), [prompt]))
                         else
                           (case rs_content response of
                              Inl e \<Rightarrow> (Inl e, [prompt])
                            | Inr content \<Rightarrow>
                                (let analysisText = (case content of None \<Rightarrow> [] | Some t \<Rightarrow> t)
                                 in if analysisText = []
                                    then (Inl (Error deepseek_empty_answer), [prompt])
                                    else (Inr (Some (parseAnalysisResponse analysisText
                                                       (length messages) (averageLength messages))),
                                          [prompt]))))))"

subsection \<open>Qwen\<close>







subsection \<open>Gemini\<close>














section \<open>Analysis orchestrator (handleAnalyzeCommand)\<close>

datatype Provider = DeepSeek | Qwen | Gemini

definition providers :: "Provider list" where
  "providers = [DeepSeek, Qwen, Gemini]"

definition provider_name :: "Provider \<Rightarrow> jsstring" where
  "provider_name p =
     (case p of DeepSeek \<Rightarrow> ascii ''DeepSeek'' | Qwen \<Rightarrow> ascii ''Qwen'' | Gemini \<Rightarrow> ascii ''Gemini'')"

text \<open>
  The variables of the loop over the providers, and the list of the providers whose
  \<open>analyzeUser\<close> has been called, in the order of the calls.
\<close>

record loop_state =
  ls_analysis :: "UserAnalysis option"
  ls_usedService :: jsstring
  ls_lastError :: "js_error option"
  ls_deepseekInsufficient :: bool
  ls_invoked :: "Provider list"

definition initial_loop_state :: loop_state where
  "initial_loop_state =
     \<lparr>ls_analysis = None, ls_usedService = [], ls_lastError = None,
      ls_deepseekInsufficient = False, ls_invoked = []\<rparr>"

text \<open>
  \<open>for (const provider of providers)\<close>.  \<open>isAvailable\<close> gives the answer of each
  service's \<open>isAvailable()\<close>, \<open>analyzeUser\<close> the outcome of its
  \<open>analyzeUser(targetUserId, { limit: 30 })\<close>: \<open>Inl\<close> a thrown error, \<open>Inr\<close> the value
  returned (\<open>None\<close> for \<open>null\<close>).  An unavailable provider is skipped by \<open>continue\<close>; a
  call that returns ends the loop by \<open>break\<close>; a call that throws is recorded in the
  \<open>catch\<close> block and the loop goes on.
\<close>

fun try_providers ::
  "(Provider \<Rightarrow> bool) \<Rightarrow> (Provider \<Rightarrow> js_error + UserAnalysis option) \<Rightarrow> Provider list
     \<Rightarrow> loop_state \<Rightarrow> loop_state" where
  "try_providers isAvailable analyzeUser [] s = s"
| "try_providers isAvailable analyzeUser (provider # rest) s =
     (if \<not> isAvailable provider then try_providers isAvailable analyzeUser rest s
      else case analyzeUser provider of
        Inr analysis \<Rightarrow>
          s\<lparr>ls_analysis := analysis, ls_usedService := provider_name provider,
            ls_invoked := ls_invoked s @ [provider]\<rparr>
      | Inl error \<Rightarrow>
          try_providers isAvailable analyzeUser rest
            (s\<lparr>ls_lastError := Some error,
               ls_deepseekInsufficient :=
                 (if provider = DeepSeek
                     \<and> includes_str (err_message error) (ascii ''INSUFFICIENT_BALANCE'')
                  then True else ls_deepseekInsufficient s),
               ls_invoked := ls_invoked s @ [provider]\<rparr>))"

text \<open>
  The two messages the handler throws by itself: that DeepSeek is out of funds and
  the alternatives (Qwen, Gemini) are unavailable, and that no provider could do the
  analysis.
\<close>

definition no_alternative :: jsstring where
  "no_alternative =
     ascii ''DeepSeek API: ''
       @ [1085, 1077, 1076, 1086, 1089, 1090, 1072, 1090, 1086, 1095, 1085, 1086] @ ascii '' ''
       @ [1089, 1088, 1077, 1076, 1089, 1090, 1074] @ ascii '' '' @ [1085, 1072] @ ascii '' ''
       @ [1089, 1095, 1077, 1090, 1091] @ ascii ''. ''
       @ [1040, 1083, 1100, 1090, 1077, 1088, 1085, 1072, 1090, 1080, 1074, 1085, 1099, 1077]
       @ ascii '' API (Qwen / Gemini) ''
       @ [1085, 1077, 1076, 1086, 1089, 1090, 1091, 1087, 1085, 1099] @ ascii ''.''"

definition no_provider :: jsstring where
  "no_provider =
     [1053, 1080] @ ascii '' '' @ [1086, 1076, 1080, 1085] @ ascii '' LLM''
       @ [8209, 1087, 1088, 1086, 1074, 1072, 1081, 1076, 1077, 1088] @ ascii '' ''
       @ [1085, 1077] @ ascii '' '' @ [1089, 1084, 1086, 1075] @ ascii '' ''
       @ [1074, 1099, 1087, 1086, 1083, 1085, 1080, 1090, 1100] @ ascii '' ''
       @ [1072, 1085, 1072, 1083, 1080, 1079] @ ascii ''. ''
       @ [1055, 1088, 1086, 1074, 1077, 1088, 1100, 1090, 1077] @ ascii '' ''
       @ [1085, 1072, 1089, 1090, 1088, 1086, 1081, 1082, 1080] @ ascii '' ''
       @ [1082, 1083, 1102, 1095, 1077, 1081] @ ascii '' API.''"

text \<open>
  The loop and the statements after it, up to the analysis that is formatted or the
  error that reaches the handler's \<open>catch\<close>.  The result is that outcome (an analysis
  comes with the name in \<open>usedService\<close>) and the list of the providers called.
\<close>

definition handleAnalyzeCommand_analysis ::
  "(Provider \<Rightarrow> bool) \<Rightarrow> (Provider \<Rightarrow> js_error + UserAnalysis option)
     \<Rightarrow> (js_error + UserAnalysis \<times> jsstring) \<times> Provider list" where
  "handleAnalyzeCommand_analysis isAvailable analyzeUser =
     (let s = try_providers isAvailable analyzeUser providers initial_loop_state
      in (case ls_analysis s of
            Some analysis \<Rightarrow> Inr (analysis, ls_usedService s)
          | None \<Rightarrow>
              if ls_deepseekInsufficient s \<and> \<not> isAvailable Qwen \<and> \<not> isAvailable Gemini
              then Inl (Error no_alternative)
              else (case ls_lastError s of
                      Some lastError \<Rightarrow> Inl lastError
                    | None \<Rightarrow> Inl (Error no_provider)),
          ls_invoked s))"

section \<open>Digest orchestrator (DigestService.generateDigest)\<close>

text \<open>
  The regular expressions of the digest parser, all with the flag \<open>i\<close>.  A literal
  matches at the start of a text when the code units agree after \<open>canonicalize\<close>; for
  the ASCII literals this is the comparison of ASCII letters without case.
\<close>

definition starts_ci :: "jsstring \<Rightarrow> jsstring \<Rightarrow> bool" where
  "starts_ci pat s =
     (length pat \<le> length s \<and> map canonicalize (take (length pat) s) = map canonicalize pat)"

text \<open>The text after the leftmost match of a literal, if there is a match.\<close>

fun find_ci :: "jsstring \<Rightarrow> jsstring \<Rightarrow> jsstring option" where
  "find_ci pat [] = (if pat = [] then Some [] else None)"
| "find_ci pat (c # s) =
     (if starts_ci pat (c # s) then Some (drop (length pat) (c # s)) else find_ci pat s)"

text \<open>
  The lazy group \<open>([\s\S]*?)\<close> before \<open>(?:literal|$)\<close>: the text up to the first match
  of the literal, or up to the end.
\<close>

fun until_ci :: "jsstring \<Rightarrow> jsstring \<Rightarrow> jsstring" where
  "until_ci pat [] = []"
| "until_ci pat (c # s) = (if starts_ci pat (c # s) then [] else c # until_ci pat s)"

text \<open>
  Group 1 of \<open>/header\s*([\s\S]*?)(?:next|$)/i\<close>, of \<open>/header\s*([\s\S]*)$/i\<close> and of
  \<open>/label\s*(.*)/i\<close>.  In each, \<open>\s*\<close> takes all the white space after the header,
  since the group that follows can always match.  The dot stops at a line terminator.
\<close>

definition group_between :: "jsstring \<Rightarrow> jsstring \<Rightarrow> jsstring \<Rightarrow> jsstring option" where
  "group_between header next raw =
     (case find_ci header raw of
        None \<Rightarrow> None
      | Some rest \<Rightarrow> Some (until_ci next (dropWhile isWhiteSpace rest)))"

definition group_to_end :: "jsstring \<Rightarrow> jsstring \<Rightarrow> jsstring option" where
  "group_to_end header raw =
     (case find_ci header raw of
        None \<Rightarrow> None
      | Some rest \<Rightarrow> Some (dropWhile isWhiteSpace rest))"

definition isLineTerminator :: "nat \<Rightarrow> bool" where
  "isLineTerminator c = (c \<in> set [10, 13, 8232, 8233])"

definition group_line :: "jsstring \<Rightarrow> jsstring \<Rightarrow> jsstring option" where
  "group_line label ctx =
     (case find_ci label ctx of
        None \<Rightarrow> None
      | Some rest \<Rightarrow> Some (takeWhile (\<lambda>c. \<not> isLineTerminator c) (dropWhile isWhiteSpace rest)))"

text \<open>\<open>m?.[1] || dflt\<close>: the group when there is a match and the group is not empty.\<close>

definition group_or :: "jsstring option \<Rightarrow> jsstring \<Rightarrow> jsstring" where
  "group_or g dflt = (case g of None \<Rightarrow> dflt | Some t \<Rightarrow> if t = [] then dflt else t)"

text \<open>
  \<open>line.replace(/^-+\s*/, '')\<close>: a line that begins with a hyphen loses its leading
  hyphens and the white space after them.
\<close>

definition strip_bullet :: "jsstring \<Rightarrow> jsstring" where
  "strip_bullet line =
     (case line of
        [] \<Rightarrow> []
      | c # rest \<Rightarrow> if c = 45 then dropWhile isWhiteSpace (dropWhile (\<lambda>d. d = 45) line) else line)"

text \<open>
  The fixed entry for "no explicit tasks" (\<open>Net yavnykh zadach.\<close>) and the defaults of
  topics and tone (\<open>Ne ukazany\<close>, \<open>Ne ukazan\<close>).
\<close>

definition no_explicit_tasks :: jsstring where
  "no_explicit_tasks = [1053, 1077, 1090] @ ascii '' '' @ [1103, 1074, 1085, 1099, 1093] @ ascii '' '' @ [1079, 1072, 1076, 1072, 1095] @ ascii ''.''"

definition actionBlock :: "jsstring \<Rightarrow> jsstring" where
  "actionBlock raw =
     trim (group_or (group_between (ascii ''Action items:'') (ascii ''Context:'') raw) [])"

definition actionItems :: "jsstring \<Rightarrow> jsstring list" where
  "actionItems raw =
     (if actionBlock raw \<noteq> []
      then filter (\<lambda>item. item \<noteq> [])
             (map (\<lambda>line. trim (strip_bullet line)) (split_nl (actionBlock raw)))
      else [no_explicit_tasks])"

record ChatDigestResult =
  dg_summary :: jsstring
  dg_actionItems :: "jsstring list"
  dg_topics :: jsstring
  dg_tone :: jsstring

text \<open>
  The parsing part of \<open>generateDigest\<close>: from the raw answer of the language model to
  the result.  The labels inside the context section are \<open>Temy:\<close> and \<open>Ton:\<close>.
\<close>

definition parseDigest :: "jsstring \<Rightarrow> ChatDigestResult" where
  "parseDigest raw =
     (let summary =
            trim (group_or (group_between (ascii ''Summary:'') (ascii ''Action items:'') raw) raw);
          ctx = group_or (group_to_end (ascii ''Context:'') raw) [];
          topicsMatch = group_or (group_line ([1058, 1077, 1084, 1099] @ ascii '':'') ctx) [];
          toneMatch = group_or (group_line ([1058, 1086, 1085] @ ascii '':'') ctx) []
      in \<lparr>dg_summary = summary,
          dg_actionItems = actionItems raw,
          dg_topics = (if ctx \<noteq> [] \<and> topicsMatch \<noteq> [] then trim topicsMatch
                       else not_specified_pl),
          dg_tone = (if ctx \<noteq> [] \<and> toneMatch \<noteq> [] then trim toneMatch
                     else not_specified_m)\<rparr>)"

text \<open>
  The part of the text of the \<open>/digest\<close> command handler (\<open>handleDigestCommand\<close>) that
  prints the action items: one line for each item, after a bullet sign, or the fixed
  line (\<open>Net yavnykh zadach.\<close> after a bullet sign) when the list is empty.
\<close>

definition handleDigestCommand_actionItems :: "jsstring list \<Rightarrow> jsstring" where
  "handleDigestCommand_actionItems digest_actionItems =
     (if length digest_actionItems \<noteq> 0
      then join_nl (map (\<lambda>item. [8226] @ ascii '' '' @ item) digest_actionItems)
      else [8226] @ ascii '' '' @ [1053, 1077, 1090] @ ascii '' '' @ [1103, 1074, 1085, 1099, 1093]
             @ ascii '' '' @ [1079, 1072, 1076, 1072, 1095] @ ascii ''.'')"

text \<open>
  Two sample answers of the model: one whose action section holds a bare bullet, and
  one with three tasks.
\<close>

definition sample_digest_bare :: jsstring where
  "sample_digest_bare =
     ascii ''Summary:'' @ [10] @ ascii ''- Quiet day.'' @ [10, 10] @ ascii ''Action items:''
       @ [10] @ ascii ''-'' @ [10, 10] @ ascii ''Context:'' @ [10] @ ascii ''- ok''"

definition sample_digest_three :: jsstring where
  "sample_digest_three =
     ascii ''Summary:'' @ [10] @ ascii ''- Release planning.'' @ [10, 10]
       @ ascii ''Action items:'' @ [10] @ ascii ''- fix the build'' @ [10]
       @ ascii ''-   write tests  '' @ [10] @ ascii ''-- ship'' @ [10, 10]
       @ ascii ''Context:'' @ [10] @ ascii ''- calm''"

section \<open>Dates (StatsService.getDateRange)\<close>

text \<open>
  The \<open>Date\<close> object of ECMAScript.  A time value is the number of milliseconds
  since the epoch, in UTC; the values here stay inside the range that \<open>TimeClip\<close>
  accepts (the clock of a running system is far from its bounds of \<open>8.64 * 10\<^sup>1\<^sup>5\<close>), so
  a date is an integer.  The functions are those of the language standard, on integers:
  \<open>div\<close> rounds down.
\<close>

definition msPerDay :: int where
  "msPerDay = 86400000"

definition Day :: "int \<Rightarrow> int" where
  "Day t = t div msPerDay"

definition TimeWithinDay :: "int \<Rightarrow> int" where
  "TimeWithinDay t = t mod msPerDay"

definition isLeapYear :: "int \<Rightarrow> bool" where
  "isLeapYear y = ((y mod 4 = 0 \<and> y mod 100 \<noteq> 0) \<or> y mod 400 = 0)"

definition DayFromYear :: "int \<Rightarrow> int" where
  "DayFromYear y =
     365 * (y - 1970) + (y - 1969) div 4 - (y - 1901) div 100 + (y - 1601) div 400"

text \<open>
  \<open>YearFromTime\<close> is the largest year that starts at or before the time value.  It is
  found by stepping up from a year that starts early enough: a year has at most 366
  days (at least 365), so the year \<open>1970 + d div 366\<close> starts at or before day \<open>d \<ge> 0\<close>,
  and the year \<open>1970 + d div 365\<close> at or before day \<open>d < 0\<close>.
\<close>

function year_search :: "int \<Rightarrow> int \<Rightarrow> int" where
  "year_search d y = (if DayFromYear (y + 1) \<le> d then year_search d (y + 1) else y)"
  by pat_completeness auto
termination
proof (relation "measure (\<lambda>(d, y). nat (d - DayFromYear y))")
  show "wf (measure (\<lambda>(d, y). nat (d - DayFromYear y)))" by simp
next
  fix d y :: int
  assume a: "DayFromYear (y + 1) \<le> d"
  have "(y - 1969) div 4 \<le> (y - 1968) div 4" and "(y - 1601) div 400 \<le> (y - 1600) div 400"
    by (rule zdiv_mono1; simp)+
  moreover have "(y - 1900) div 100 \<le> (y - 1901) div 100 + 1"
    by linarith
  ultimately have "DayFromYear y < DayFromYear (y + 1)"
    by (simp add: DayFromYear_def)
  with a show "((d, y + 1), (d, y)) \<in> measure (\<lambda>(d, y). nat (d - DayFromYear y))"
    by simp
qed

declare year_search.simps [simp del]

definition YearFromTime :: "int \<Rightarrow> int" where
  "YearFromTime t =
     year_search (Day t) (1970 + (if 0 \<le> Day t then Day t div 366 else Day t div 365))"

definition InLeapYear :: "int \<Rightarrow> int" where
  "InLeapYear t = (if isLeapYear (YearFromTime t) then 1 else 0)"

definition DayWithinYear :: "int \<Rightarrow> int" where
  "DayWithinYear t = Day t - DayFromYear (YearFromTime t)"

text \<open>
  The day of the year on which month \<open>m\<close> (0 to 11) begins, \<open>leap\<close> being 1 in a leap
  year and 0 otherwise: the bounds of the standard's table for \<open>MonthFromTime\<close>.
\<close>

definition month_start :: "int \<Rightarrow> int \<Rightarrow> int" where
  "month_start m leap =
     (if m = 0 then 0 else if m = 1 then 31 else if m = 2 then 59 + leap
      else if m = 3 then 90 + leap else if m = 4 then 120 + leap
      else if m = 5 then 151 + leap else if m = 6 then 181 + leap
      else if m = 7 then 212 + leap else if m = 8 then 243 + leap
      else if m = 9 then 273 + leap else if m = 10 then 304 + leap
      else 334 + leap)"

definition month_of_day :: "int \<Rightarrow> int \<Rightarrow> int" where
  "month_of_day d leap =
     (if d < 31 then 0 else if d < 59 + leap then 1 else if d < 90 + leap then 2
      else if d < 120 + leap then 3 else if d < 151 + leap then 4
      else if d < 181 + leap then 5 else if d < 212 + leap then 6
      else if d < 243 + leap then 7 else if d < 273 + leap then 8
      else if d < 304 + leap then 9 else if d < 334 + leap then 10
      else 11)"

definition MonthFromTime :: "int \<Rightarrow> int" where
  "MonthFromTime t = month_of_day (DayWithinYear t) (InLeapYear t)"

text \<open>
  \<open>DateFromTime\<close>: the standard's table gives, for each month, the day within the year
  less the days before the month, plus one.
\<close>

definition DateFromTime :: "int \<Rightarrow> int" where
  "DateFromTime t = DayWithinYear t - month_start (MonthFromTime t) (InLeapYear t) + 1"

text \<open>
  \<open>MakeDay(year, month, date)\<close>: months beyond 0 to 11 carry into the year, and the
  date counts on from the first day of the month, beyond its end or before its start.
\<close>

definition MakeDay :: "int \<Rightarrow> int \<Rightarrow> int \<Rightarrow> int" where
  "MakeDay year month date =
     (let ym = year + month div 12; mn = month mod 12
      in DayFromYear ym + month_start mn (if isLeapYear ym then 1 else 0) + date - 1)"

definition MakeDate :: "int \<Rightarrow> int \<Rightarrow> int" where
  "MakeDate day time = day * msPerDay + time"

text \<open>The number of days of month \<open>m\<close> (0 to 11), in general and in the year \<open>y\<close>.\<close>

definition month_len :: "int \<Rightarrow> int \<Rightarrow> int" where
  "month_len m leap =
     (if m = 1 then 28 + leap
      else if m = 3 \<or> m = 5 \<or> m = 8 \<or> m = 10 then 30 else 31)"

definition DaysInMonth :: "int \<Rightarrow> int \<Rightarrow> int" where
  "DaysInMonth y m = month_len m (if isLeapYear y then 1 else 0)"

text \<open>
  The time zone of the host: the offset of local time from UTC at a UTC time value
  (\<open>LocalTZA(t, true)\<close>) and at a local time value (\<open>LocalTZA(t, false)\<close>).
\<close>

record zone =
  tza_utc :: "int \<Rightarrow> int"
  tza_local :: "int \<Rightarrow> int"

definition LocalTime :: "zone \<Rightarrow> int \<Rightarrow> int" where
  "LocalTime z t = t + tza_utc z t"

definition UTC :: "zone \<Rightarrow> int \<Rightarrow> int" where
  "UTC z t = t - tza_local z t"

definition getFullYear :: "zone \<Rightarrow> int \<Rightarrow> int" where
  "getFullYear z tv = YearFromTime (LocalTime z tv)"

definition getMonth :: "zone \<Rightarrow> int \<Rightarrow> int" where
  "getMonth z tv = MonthFromTime (LocalTime z tv)"

definition getDate :: "zone \<Rightarrow> int \<Rightarrow> int" where
  "getDate z tv = DateFromTime (LocalTime z tv)"

text \<open>\<open>new Date(year, month, date)\<close>; a year from 0 to 99 stands for 1900 to 1999.\<close>

definition new_Date :: "zone \<Rightarrow> int \<Rightarrow> int \<Rightarrow> int \<Rightarrow> int" where
  "new_Date z year month date =
     (let yr = (if 0 \<le> year \<and> year \<le> 99 then 1900 + year else year)
      in UTC z (MakeDate (MakeDay yr month date) 0))"

definition setDate :: "zone \<Rightarrow> int \<Rightarrow> int \<Rightarrow> int" where
  "setDate z tv date =
     (let t = LocalTime z tv
      in UTC z (MakeDate (MakeDay (YearFromTime t) (MonthFromTime t) date) (TimeWithinDay t)))"

definition setMonth :: "zone \<Rightarrow> int \<Rightarrow> int \<Rightarrow> int" where
  "setMonth z tv month =
     (let t = LocalTime z tv
      in UTC z (MakeDate (MakeDay (YearFromTime t) month (DateFromTime t)) (TimeWithinDay t)))"

text \<open>
  \<open>getDateRange(period)\<close>, with the time zone of the host and the value of
  \<open>new Date()\<close> as parameters.  An absent field of the result is \<open>None\<close>.
\<close>

record date_range =
  dr_startDate :: "int option"
  dr_endDate :: "int option"

definition getDateRange :: "zone \<Rightarrow> int \<Rightarrow> jsstring \<Rightarrow> date_range" where
  "getDateRange z now period =
     (if period = ascii ''today''
      then \<lparr>dr_startDate = Some (new_Date z (getFullYear z now) (getMonth z now) (getDate z now)),
            dr_endDate = Some now\<rparr>
      else if period = ascii ''week''
      then \<lparr>dr_startDate = Some (setDate z now (getDate z now - 7)), dr_endDate = Some now\<rparr>
      else if period = ascii ''month''
      then \<lparr>dr_startDate = Some (setMonth z now (getMonth z now - 1)), dr_endDate = Some now\<rparr>
      else \<lparr>dr_startDate = None, dr_endDate = None\<rparr>)"

text \<open>
  Sample hosts and clocks: UTC; a zone one hour ahead of UTC that moves to two hours
  ahead on 29 March 2026 at 01:00 UTC (02:00 local time); noon UTC of 23 January 2026,
  of 31 March 2026 and of 1 April 2026.
\<close>

definition zone_utc :: zone where
  "zone_utc = \<lparr>tza_utc = (\<lambda>t. 0), tza_local = (\<lambda>t. 0)\<rparr>"

definition zone_dst :: zone where
  "zone_dst =
     \<lparr>tza_utc = (\<lambda>t. if t < 1774746000000 then 3600000 else 7200000),
      tza_local = (\<lambda>t. if t < 1774749600000 then 3600000 else 7200000)\<rparr>"

definition noon_2026_01_23 :: int where
  "noon_2026_01_23 = 1769169600000"

definition noon_2026_03_31 :: int where
  "noon_2026_03_31 = 1774958400000"

definition noon_2026_04_01 :: int where
  "noon_2026_04_01 = 1775044800000"

text \<open>
  Sample states of the message store: one known user (Telegram id 42, internal id 1)
  without messages, and the same user with three messages.
\<close>

definition sample_user :: user_row where
  "sample_user =
     \<lparr>ur_id = 1, ur_telegram_id = 42, ur_username = Some (ascii ''alice''),
      ur_first_name = Some (ascii ''Alice''), ur_last_name = None\<rparr>"

definition sample_db_empty :: database where
  "sample_db_empty = \<lparr>db_users = [sample_user], db_messages = [], db_messages_id_seq = 0\<rparr>"

definition sample_db :: database where
  "sample_db =
     \<lparr>db_users = [sample_user],
      db_messages =
        [\<lparr>mr_id = 1, mr_user_id = 1, mr_telegram_message_id = 500, mr_chat_id = -1001,
          mr_text = ascii ''hello'', mr_created_at = 10\<rparr>,
         \<lparr>mr_id = 2, mr_user_id = 1, mr_telegram_message_id = 501, mr_chat_id = -1001,
          mr_text = ascii ''build is green'', mr_created_at = 20\<rparr>,
         \<lparr>mr_id = 3, mr_user_id = 1, mr_telegram_message_id = 502, mr_chat_id = -1001,
          mr_text = ascii ''lunch?'', mr_created_at = 30\<rparr>],
      db_messages_id_seq = 3\<rparr>"


text \<open>
  A sample input of the parser: a five-line response (\<open>Stil': neformal'nyi\<close>, \<open>Temy: kod, kofe\<close>,
  \<open>Aktivnost': vecher\<close>, \<open>Tonal'nost': pozitivnaya\<close>, \<open>Osobennosti: emodzi\<close>) and the
  same lines in another order, with blank lines and surrounding spaces.
\<close>

definition sample_response :: jsstring where
  "sample_response =
     [1057, 1090, 1080, 1083, 1100] @ ascii '': ''
       @ [1085, 1077, 1092, 1086, 1088, 1084, 1072, 1083, 1100, 1085, 1099, 1081, 10, 1058, 1077, 1084, 1099]
       @ ascii '': '' @ [1082, 1086, 1076] @ ascii '', ''
       @ [1082, 1086, 1092, 1077, 10, 1040, 1082, 1090, 1080, 1074, 1085, 1086, 1089, 1090, 1100]
       @ ascii '': ''
       @ [1074, 1077, 1095, 1077, 1088, 10, 1058, 1086, 1085, 1072, 1083, 1100, 1085, 1086, 1089, 1090, 1100]
       @ ascii '': ''
       @ [1087, 1086, 1079, 1080, 1090, 1080, 1074, 1085, 1072, 1103, 10, 1054, 1089, 1086, 1073, 1077, 1085, 1085, 1086, 1089, 1090, 1080]
       @ ascii '': '' @ [1101, 1084, 1086, 1076, 1079, 1080]"

definition sample_reordered :: jsstring where
  "sample_reordered =
     [1058, 1086, 1085, 1072, 1083, 1100, 1085, 1086, 1089, 1090, 1100] @ ascii '': ''
       @ [1087, 1086, 1079, 1080, 1090, 1080, 1074, 1085, 1072, 1103, 10, 10] @ ascii ''  ''
       @ [10, 1058, 1077, 1084, 1099] @ ascii '': '' @ [1082, 1086, 1076] @ ascii '', ''
       @ [1082, 1086, 1092, 1077, 10, 1040, 1082, 1090, 1080, 1074, 1085, 1086, 1089, 1090, 1100]
       @ ascii '': ''
       @ [1074, 1077, 1095, 1077, 1088, 10, 10, 1054, 1089, 1086, 1073, 1077, 1085, 1085, 1086, 1089, 1090, 1080]
       @ ascii '': '' @ [1101, 1084, 1086, 1076, 1079, 1080] @ ascii ''  '' @ [10]
       @ ascii '' '' @ [1057, 1090, 1080, 1083, 1100] @ ascii '': ''
       @ [1085, 1077, 1092, 1086, 1088, 1084, 1072, 1083, 1100, 1085, 1099, 1081]"

section \<open>Theorems\<close>

subsection \<open>Cache keys\<close>

lemma getCacheKey_falsy:
  "\<not> truthy_num u \<Longrightarrow>
     getCacheKey chatId p u = ascii ''stats:chat:'' @ show_int chatId @ ascii '':period:'' @ p"
  by (simp add: getCacheKey_def)

text \<open>
  Claim C10.  The cache key leaves the user component out for every falsy \<open>userId\<close>
  (absent or zero).  Hence the key that \<open>getUserStats\<close> computes for user 0 is the key
  that \<open>getChatStats\<close> computes for the same chat and period,
  \<open>stats:chat:<chatId>:period:<period>\<close>, and the two share one cache entry: once
  \<open>getChatStats\<close> has run on a reachable cache, \<open>getUserStats\<close> for user 0 returns the
  chat-wide entry from the cache, whatever the user query would have computed.
\<close>

theorem C10_user_zero_shares_chat_key:
  "(\<not> truthy_num u \<longrightarrow> getCacheKey chatId p u = getCacheKey chatId p None)
   \<and> getCacheKey chatId p (Some 0) = getCacheKey chatId p None
   \<and> getCacheKey chatId p (Some 0)
       = ascii ''stats:chat:'' @ show_int chatId @ ascii '':period:'' @ p
   \<and> (reachable r \<longrightarrow>
        fst (getUserStats userQuery (snd (getChatStats chatQuery r chatId p)) chatId 0 p)
          = fst (getChatStats chatQuery r chatId p))"
proof -
  have k: "getCacheKey chatId p (Some 0) = getCacheKey chatId p None"
    by (simp add: getCacheKey_def truthy_num_def)
  have f: "getCacheKey chatId p (Some 0)
             = ascii ''stats:chat:'' @ show_int chatId @ ascii '':period:'' @ p"
    by (rule getCacheKey_falsy) (simp add: truthy_num_def)
  have s: "reachable r \<longrightarrow>
        fst (getUserStats userQuery (snd (getChatStats chatQuery r chatId p)) chatId 0 p)
          = fst (getChatStats chatQuery r chatId p)"
    by (cases "store r (getCacheKey chatId p None)")
       (simp_all add: getChatStats_def getUserStats_def k redis_get_def redis_setEx_def Let_def)
  have g: "\<not> truthy_num u \<longrightarrow> getCacheKey chatId p u = getCacheKey chatId p None"
    by (simp add: getCacheKey_def truthy_num_def)
  from g k f s show ?thesis by blast
qed

theorem C10_user_zero_shares_chat_key_witness:
  "getCacheKey (-1001) (ascii ''week'') (Some 0) = ascii ''stats:chat:-1001:period:week''
   \<and> fst (getUserStats (\<lambda>c u p. None)
          (snd (getChatStats (\<lambda>c p. \<lparr>topUsers = [], totalMessages = 7, totalUsers = 2\<rparr>)
                 \<lparr>reachable = True, store = Map.empty\<rparr> (-1001) (ascii ''week'')))
          (-1001) 0 (ascii ''week''))
       = Some (ChatSnapshot \<lparr>topUsers = [], totalMessages = 7, totalUsers = 2\<rparr>)"
proof -
  let ?r = "\<lparr>reachable = True, store = Map.empty\<rparr>"
  let ?q = "\<lambda>(c::int) (p::jsstring). \<lparr>topUsers = [], totalMessages = 7, totalUsers = 2\<rparr>"
  let ?u = "\<lambda>(c::int) (u::int) (p::jsstring). (None :: UserStatsResult option)"
  note t = C10_user_zero_shares_chat_key [of "Some 0" "-1001" "ascii ''week''" ?r ?u ?q]
  from t have a: "getCacheKey (-1001) (ascii ''week'') (Some 0)
      = ascii ''stats:chat:'' @ show_int (-1001) @ ascii '':period:'' @ ascii ''week''"
    by blast
  have r: "reachable ?r" by simp
  from t r have b: "fst (getUserStats ?u (snd (getChatStats ?q ?r (-1001) (ascii ''week'')))
        (-1001) 0 (ascii ''week'')) = fst (getChatStats ?q ?r (-1001) (ascii ''week''))"
    by blast
  have c: "ascii ''stats:chat:'' @ show_int (-1001) @ ascii '':period:'' @ ascii ''week''
      = ascii ''stats:chat:-1001:period:week''"
    by (simp add: ascii_def show_int_def show_nat.simps)
  have d: "fst (getChatStats ?q ?r (-1001) (ascii ''week''))
      = Some (ChatSnapshot \<lparr>topUsers = [], totalMessages = 7, totalUsers = 2\<rparr>)"
    by (simp add: getChatStats_def redis_get_def Let_def)
  from a b c d show ?thesis by simp
qed

subsection \<open>Truncation of the prompt\<close>















subsection \<open>Response parser\<close>

lemma canonicalize_toLowerCase_unit: "canonicalize (toLowerCase_unit c) = canonicalize c"
  by (simp add: canonicalize_def toLowerCase_unit_def)

lemma startsWith_append_conv: "startsWith s p \<longleftrightarrow> (\<exists>t. s = p @ t)"
  by (induction s p rule: startsWith.induct) auto

lemma startsWith_Cons:
  "startsWith s (a # p) = (case s of [] \<Rightarrow> False | c # t \<Rightarrow> c = a \<and> startsWith t p)"
  by (cases s) simp_all

lemma replace_label_guarded:
  assumes "startsWith (toLowerCase line) label"
  shows "replace_label label line = dropWhile isWhiteSpace (drop (length label) line)"
proof -
  from assms obtain t where t: "map toLowerCase_unit line = label @ t"
    by (auto simp: startsWith_append_conv toLowerCase_def)
  then have len: "length label \<le> length line"
    by (metis length_append length_map le_add1)
  from t have "take (length label) (map toLowerCase_unit line) = label" by simp
  then have "map canonicalize label
      = map canonicalize (map toLowerCase_unit (take (length label) line))"
    by (simp add: take_map)
  also have "\<dots> = map canonicalize (take (length label) line)"
    by (simp add: canonicalize_toLowerCase_unit)
  finally show ?thesis using len by (simp add: replace_label_def)
qed

lemma trim_dropWhile: "trim (dropWhile isWhiteSpace s) = trim s"
  by (simp add: trim_def)

lemma field_value_guarded:
  "startsWith (toLowerCase line) label \<Longrightarrow>
     trim (replace_label label line) = trim (drop (length label) line)"
  by (simp add: replace_label_guarded trim_dropWhile)

lemmas label_defs = label_style_def label_topics_def label_activity_def label_tone_def
  label_features_def ascii_def

lemma labels_exclusive:
  "\<not> (startsWith x label_style \<and> startsWith x label_topics)"
  "\<not> (startsWith x label_style \<and> startsWith x label_activity)"
  "\<not> (startsWith x label_style \<and> startsWith x label_tone)"
  "\<not> (startsWith x label_style \<and> startsWith x label_features)"
  "\<not> (startsWith x label_topics \<and> startsWith x label_activity)"
  "\<not> (startsWith x label_topics \<and> startsWith x label_tone)"
  "\<not> (startsWith x label_topics \<and> startsWith x label_features)"
  "\<not> (startsWith x label_activity \<and> startsWith x label_tone)"
  "\<not> (startsWith x label_activity \<and> startsWith x label_features)"
  "\<not> (startsWith x label_tone \<and> startsWith x label_features)"
  by (auto simp: label_defs startsWith_Cons split: list.splits)

lemma last_labelled_snoc:
  "last_labelled label (xs @ [x])
     = (if startsWith (toLowerCase x) label then Some x else last_labelled label xs)"
  by (simp add: last_labelled_def)

lemma field_of_Nil: "field_of label dflt [] = dflt"
  by (simp add: field_of_def last_labelled_def)

lemma field_of_snoc:
  "field_of label dflt (xs @ [x])
     = (if startsWith (toLowerCase x) label then trim (drop (length label) x)
        else field_of label dflt xs)"
  by (simp add: field_of_def last_labelled_snoc)

lemma foldl_parse_line:
  "foldl parse_line st lines =
     \<lparr>f_style = field_of label_style (f_style st) lines,
      f_topics = field_of label_topics (f_topics st) lines,
      f_activity = field_of label_activity (f_activity st) lines,
      f_tone = field_of label_tone (f_tone st) lines,
      f_features = field_of label_features (f_features st) lines\<rparr>"
proof (induction lines rule: rev_induct)
  case Nil
  show ?case by (simp add: field_of_Nil)
next
  case (snoc x xs)
  let ?mid = "\<lparr>f_style = field_of label_style (f_style st) xs,
      f_topics = field_of label_topics (f_topics st) xs,
      f_activity = field_of label_activity (f_activity st) xs,
      f_tone = field_of label_tone (f_tone st) xs,
      f_features = field_of label_features (f_features st) xs\<rparr>"
  have "foldl parse_line st (xs @ [x]) = parse_line (foldl parse_line st xs) x"
    by simp
  also have "\<dots> = parse_line ?mid x"
    by (simp only: snoc)
  also have "\<dots> = \<lparr>f_style = field_of label_style (f_style st) (xs @ [x]),
      f_topics = field_of label_topics (f_topics st) (xs @ [x]),
      f_activity = field_of label_activity (f_activity st) (xs @ [x]),
      f_tone = field_of label_tone (f_tone st) (xs @ [x]),
      f_features = field_of label_features (f_features st) (xs @ [x])\<rparr>"
    using labels_exclusive [of "toLowerCase x"]
    by (simp add: parse_line_def field_of_snoc field_value_guarded)
  finally show ?case .
qed

lemma filter_perm_at_most_one:
  assumes "mset xs = mset ys" and "length (filter P xs) \<le> 1"
  shows "filter P xs = filter P ys"
proof -
  have m: "mset (filter P xs) = mset (filter P ys)"
    using assms(1) by (simp add: mset_filter)
  show ?thesis
  proof (cases "filter P xs")
    case Nil
    with m show ?thesis by simp
  next
    case (Cons x zs)
    with assms(2) have "filter P xs = [x]" by simp
    with m show ?thesis by (metis mset.simps(1) mset.simps(2) mset_single_iff_right)
  qed
qed

lemma last_labelled_perm:
  assumes "mset xs = mset ys"
    and "length (filter (\<lambda>line. startsWith (toLowerCase line) label) xs) \<le> 1"
  shows "last_labelled label ys = last_labelled label xs"
  using filter_perm_at_most_one [OF assms] by (simp add: last_labelled_def)

text \<open>
  Claim C4.  For every response text and each of the five fields, the parser returns the
  remainder (the text after the label, trimmed) of the last non-empty trimmed line whose
  lower-cased text begins with the field's label, and the field's fixed value for
  "not specified" when no line does.  The result depends on the lines only through
  these last lines: two texts with the same non-empty trimmed lines, in any order and
  with any blank lines between them, parse to the same record when no label occurs on
  two lines.
\<close>

theorem C4_parser_last_label_wins:
  "ua_style (parseAnalysisResponse responseText n a)
     = (case last_labelled label_style (response_lines responseText) of
          None \<Rightarrow> not_specified_m
        | Some line \<Rightarrow> trim (drop (length label_style) line))
   \<and> ua_topics (parseAnalysisResponse responseText n a)
     = (case last_labelled label_topics (response_lines responseText) of
          None \<Rightarrow> not_specified_pl
        | Some line \<Rightarrow> trim (drop (length label_topics) line))
   \<and> ua_activity (parseAnalysisResponse responseText n a)
     = (case last_labelled label_activity (response_lines responseText) of
          None \<Rightarrow> not_specified_f
        | Some line \<Rightarrow> trim (drop (length label_activity) line))
   \<and> ua_tone (parseAnalysisResponse responseText n a)
     = (case last_labelled label_tone (response_lines responseText) of
          None \<Rightarrow> not_specified_f
        | Some line \<Rightarrow> trim (drop (length label_tone) line))
   \<and> ua_features (parseAnalysisResponse responseText n a)
     = (case last_labelled label_features (response_lines responseText) of
          None \<Rightarrow> not_specified_pl
        | Some line \<Rightarrow> trim (drop (length label_features) line))
   \<and> (mset (response_lines responseText) = mset (response_lines otherText)
        \<and> (\<forall>label \<in> set [label_style, label_topics, label_activity, label_tone, label_features].
              length (filter (\<lambda>line. startsWith (toLowerCase line) label)
                        (response_lines responseText)) \<le> 1)
        \<longrightarrow> parseAnalysisResponse otherText n a = parseAnalysisResponse responseText n a)"
proof -
  have fields: "ua_style (parseAnalysisResponse responseText n a)
     = (case last_labelled label_style (response_lines responseText) of
          None \<Rightarrow> not_specified_m
        | Some line \<Rightarrow> trim (drop (length label_style) line))
   \<and> ua_topics (parseAnalysisResponse responseText n a)
     = (case last_labelled label_topics (response_lines responseText) of
          None \<Rightarrow> not_specified_pl
        | Some line \<Rightarrow> trim (drop (length label_topics) line))
   \<and> ua_activity (parseAnalysisResponse responseText n a)
     = (case last_labelled label_activity (response_lines responseText) of
          None \<Rightarrow> not_specified_f
        | Some line \<Rightarrow> trim (drop (length label_activity) line))
   \<and> ua_tone (parseAnalysisResponse responseText n a)
     = (case last_labelled label_tone (response_lines responseText) of
          None \<Rightarrow> not_specified_f
        | Some line \<Rightarrow> trim (drop (length label_tone) line))
   \<and> ua_features (parseAnalysisResponse responseText n a)
     = (case last_labelled label_features (response_lines responseText) of
          None \<Rightarrow> not_specified_pl
        | Some line \<Rightarrow> trim (drop (length label_features) line))"
    unfolding parseAnalysisResponse_def Let_def foldl_parse_line
    by (simp add: field_of_def initial_fields_def)
  have perm: "parseAnalysisResponse otherText n a = parseAnalysisResponse responseText n a"
    if m: "mset (response_lines responseText) = mset (response_lines otherText)"
      and one: "\<forall>label \<in> set [label_style, label_topics, label_activity, label_tone, label_features].
              length (filter (\<lambda>line. startsWith (toLowerCase line) label)
                        (response_lines responseText)) \<le> 1"
  proof -
    have "last_labelled label (response_lines otherText)
            = last_labelled label (response_lines responseText)"
      if "label \<in> set [label_style, label_topics, label_activity, label_tone, label_features]"
      for label
      using last_labelled_perm [OF m] one that by blast
    then show ?thesis
      unfolding parseAnalysisResponse_def Let_def foldl_parse_line
      by (simp add: field_of_def)
  qed
  from fields perm show ?thesis by blast
qed

lemmas parser_eval = response_lines_def trim_def isWhiteSpace_def toLowerCase_def
  toLowerCase_unit_def label_defs

lemma sample_lines:
  "response_lines sample_response =
     [[1057, 1090, 1080, 1083, 1100] @ ascii '': ''
        @ [1085, 1077, 1092, 1086, 1088, 1084, 1072, 1083, 1100, 1085, 1099, 1081],
      [1058, 1077, 1084, 1099] @ ascii '': '' @ [1082, 1086, 1076] @ ascii '', ''
        @ [1082, 1086, 1092, 1077],
      [1040, 1082, 1090, 1080, 1074, 1085, 1086, 1089, 1090, 1100] @ ascii '': ''
        @ [1074, 1077, 1095, 1077, 1088],
      [1058, 1086, 1085, 1072, 1083, 1100, 1085, 1086, 1089, 1090, 1100] @ ascii '': ''
        @ [1087, 1086, 1079, 1080, 1090, 1080, 1074, 1085, 1072, 1103],
      [1054, 1089, 1086, 1073, 1077, 1085, 1085, 1086, 1089, 1090, 1080] @ ascii '': ''
        @ [1101, 1084, 1086, 1076, 1079, 1080]]"
  "response_lines sample_reordered =
     [[1058, 1086, 1085, 1072, 1083, 1100, 1085, 1086, 1089, 1090, 1100] @ ascii '': ''
        @ [1087, 1086, 1079, 1080, 1090, 1080, 1074, 1085, 1072, 1103],
      [1058, 1077, 1084, 1099] @ ascii '': '' @ [1082, 1086, 1076] @ ascii '', ''
        @ [1082, 1086, 1092, 1077],
      [1040, 1082, 1090, 1080, 1074, 1085, 1086, 1089, 1090, 1100] @ ascii '': ''
        @ [1074, 1077, 1095, 1077, 1088],
      [1054, 1089, 1086, 1073, 1077, 1085, 1085, 1086, 1089, 1090, 1080] @ ascii '': ''
        @ [1101, 1084, 1086, 1076, 1079, 1080],
      [1057, 1090, 1080, 1083, 1100] @ ascii '': ''
        @ [1085, 1077, 1092, 1086, 1088, 1084, 1072, 1083, 1100, 1085, 1099, 1081]]"
  by (simp_all add: sample_response_def sample_reordered_def parser_eval)

theorem C4_parser_last_label_wins_witness:
  "ua_style (parseAnalysisResponse sample_reordered 5 12) = ([1085, 1077, 1092, 1086, 1088, 1084, 1072, 1083, 1100, 1085, 1099, 1081])
   \<and> ua_topics (parseAnalysisResponse sample_reordered 5 12) = ([1082, 1086, 1076] @ ascii '', '' @ [1082, 1086, 1092, 1077])
   \<and> ua_activity (parseAnalysisResponse sample_reordered 5 12) = ([1074, 1077, 1095, 1077, 1088])
   \<and> ua_tone (parseAnalysisResponse sample_reordered 5 12) = ([1087, 1086, 1079, 1080, 1090, 1080, 1074, 1085, 1072, 1103])
   \<and> ua_features (parseAnalysisResponse sample_reordered 5 12) = ([1101, 1084, 1086, 1076, 1079, 1080])
   \<and> parseAnalysisResponse sample_reordered 5 12 = parseAnalysisResponse sample_response 5 12"
proof -
  note t = C4_parser_last_label_wins [of sample_response 5 12 sample_reordered]
  have m: "mset (response_lines sample_response) = mset (response_lines sample_reordered)"
    by (simp add: sample_lines)
  have one: "\<forall>label \<in> set [label_style, label_topics, label_activity, label_tone, label_features].
              length (filter (\<lambda>line. startsWith (toLowerCase line) label)
                        (response_lines sample_response)) \<le> 1"
    by (simp add: sample_lines toLowerCase_def toLowerCase_unit_def label_defs)
  from t m one
  have eq: "parseAnalysisResponse sample_reordered 5 12 = parseAnalysisResponse sample_response 5 12"
    by blast
  have v: "ua_style (parseAnalysisResponse sample_response 5 12) = ([1085, 1077, 1092, 1086, 1088, 1084, 1072, 1083, 1100, 1085, 1099, 1081])
     \<and> ua_topics (parseAnalysisResponse sample_response 5 12) = ([1082, 1086, 1076] @ ascii '', '' @ [1082, 1086, 1092, 1077])
     \<and> ua_activity (parseAnalysisResponse sample_response 5 12) = ([1074, 1077, 1095, 1077, 1088])
     \<and> ua_tone (parseAnalysisResponse sample_response 5 12) = ([1087, 1086, 1079, 1080, 1090, 1080, 1074, 1085, 1072, 1103])
     \<and> ua_features (parseAnalysisResponse sample_response 5 12) = ([1101, 1084, 1086, 1076, 1079, 1080])"
    using t by (simp add: sample_lines last_labelled_def trim_def isWhiteSpace_def
        toLowerCase_def toLowerCase_unit_def label_defs)
  from eq v show ?thesis by simp
qed

subsection \<open>Fetching the messages of a user\<close>









lemma sample_user_found:
  "User_findByTelegramId sample_db 42 = Some sample_user"
  "User_findByTelegramId sample_db_empty 42 = Some sample_user"
  by (simp_all add: User_findByTelegramId_def sample_db_def sample_db_empty_def sample_user_def)

lemma sample_rows:
  "map mr_text (rev (sort_key mr_created_at (filter (\<lambda>m. mr_user_id m = 1) (db_messages sample_db))))
     = [ascii ''lunch?'', ascii ''build is green'', ascii ''hello'']"
  "filter (\<lambda>m. mr_user_id m = 1) (db_messages sample_db_empty) = []"
  by (simp_all add: sample_db_def sample_db_empty_def)

lemma sample_fetch:
  "getUserMessages sample_db 42 30 = Inr [ascii ''lunch?'', ascii ''build is green'', ascii ''hello'']"
  "getUserMessages sample_db 42 2 = Inr [ascii ''lunch?'', ascii ''build is green'']"
  "getUserMessages sample_db_empty 42 30 = Inr []"
  by (simp_all add: getUserMessages_def sample_user_found Message_findByUserId_def truthy_num_def
        sample_user_def Let_def sample_rows take_map [symmetric])




subsection \<open>Users without messages\<close>





subsection \<open>The DeepSeek client\<close>

lemma DeepSeek_at_most_one_request:
  "length (snd (DeepSeekService_analyzeUser key fetch db tid l)) \<le> 1"
  by (auto simp: DeepSeekService_analyzeUser_def Let_def
           split: if_splits option.splits sum.splits)

text \<open>
  Claim C2, as the specification states it, fails in its first part: a call of
  \<open>analyzeUser\<close> does not always make one HTTP request.  For a known user without
  messages the DeepSeek client, with its key set, returns without any request.
\<close>

theorem C2_no_request_counterexample:
  "snd (DeepSeekService_analyzeUser (Some (ascii ''sk-1'')) (\<lambda>prompt. Inl (Error []))
          sample_db_empty 42 (Some 30)) = []
   \<and> length (snd (DeepSeekService_analyzeUser (Some (ascii ''sk-1'')) (\<lambda>prompt. Inl (Error []))
          sample_db_empty 42 (Some 30))) \<noteq> 1"
  by (simp add: DeepSeekService_analyzeUser_def truthy_str_def ascii_def sample_user_found
        sample_fetch analysis_limit_def truthy_num_def)

text \<open>
  Claim C2, amended.  The DeepSeek client makes at most one HTTP request in a call of
  \<open>analyzeUser\<close>, and exactly one, carrying the analysis prompt, when its key is set,
  the user is known and at least one message was fetched; there is no retry.  When the
  response to that request is not a success, status 402 raises the error
  \<open>DEEPSEEK_INSUFFICIENT_BALANCE\<close> and every other status raises the generic API error
  whose message carries the status code and the body text.  (The dashboard route has
  the same two branches in \<open>analyzeUserWithDeepseek\<close>.)
\<close>

theorem C2_deepseek_single_request:
  "length (snd (DeepSeekService_analyzeUser key fetch db tid l)) \<le> 1
   \<and> (truthy_str key \<and> User_findByTelegramId db tid = Some u
        \<and> getUserMessages db tid (analysis_limit l) = Inr msgs \<and> msgs \<noteq> []
      \<longrightarrow> snd (DeepSeekService_analyzeUser key fetch db tid l)
            = [createAnalysisPrompt msgs (ur_username u) (ur_first_name u)]
          \<and> (fetch (createAnalysisPrompt msgs (ur_username u) (ur_first_name u)) = Inr response
               \<and> \<not> ok response
             \<longrightarrow> fst (DeepSeekService_analyzeUser key fetch db tid l)
                   = (if rs_status response = 402
                      then Inl (Error DEEPSEEK_INSUFFICIENT_BALANCE)
                      else Inl (Error (deepseek_api_error (rs_status response) (rs_text response))))))"
proof -
  have one: "snd (DeepSeekService_analyzeUser key fetch db tid l)
            = [createAnalysisPrompt msgs (ur_username u) (ur_first_name u)]"
    if "truthy_str key" "User_findByTelegramId db tid = Some u"
       "getUserMessages db tid (analysis_limit l) = Inr msgs" "msgs \<noteq> []"
    using that
    by (auto simp: DeepSeekService_analyzeUser_def Let_def split: sum.splits option.splits)
  have err: "fst (DeepSeekService_analyzeUser key fetch db tid l)
                   = (if rs_status response = 402
                      then Inl (Error DEEPSEEK_INSUFFICIENT_BALANCE)
                      else Inl (Error (deepseek_api_error (rs_status response) (rs_text response))))"
    if "truthy_str key" "User_findByTelegramId db tid = Some u"
       "getUserMessages db tid (analysis_limit l) = Inr msgs" "msgs \<noteq> []"
       "fetch (createAnalysisPrompt msgs (ur_username u) (ur_first_name u)) = Inr response"
       "\<not> ok response"
    using that by (simp add: DeepSeekService_analyzeUser_def Let_def)
  from DeepSeek_at_most_one_request [of key fetch db tid l] one err show ?thesis by blast
qed

theorem C2_deepseek_single_request_witness:
  "fst (DeepSeekService_analyzeUser (Some (ascii ''sk-1''))
          (\<lambda>prompt. Inr \<lparr>rs_status = 402, rs_text = ascii ''{}'', rs_content = Inr None\<rparr>)
          sample_db 42 (Some 30))
     = Inl (Error DEEPSEEK_INSUFFICIENT_BALANCE)
   \<and> fst (DeepSeekService_analyzeUser (Some (ascii ''sk-1''))
          (\<lambda>prompt. Inr \<lparr>rs_status = 500, rs_text = ascii ''oops'', rs_content = Inr None\<rparr>)
          sample_db 42 (Some 30))
     = Inl (Error (deepseek_api_error 500 (ascii ''oops'')))
   \<and> length (snd (DeepSeekService_analyzeUser (Some (ascii ''sk-1''))
          (\<lambda>prompt. Inr \<lparr>rs_status = 500, rs_text = ascii ''oops'', rs_content = Inr None\<rparr>)
          sample_db 42 (Some 30))) = 1"
proof -
  let ?msgs = "[ascii ''lunch?'', ascii ''build is green'', ascii ''hello'']"
  let ?r402 = "\<lparr>rs_status = 402, rs_text = ascii ''{}'', rs_content = Inr None\<rparr>"
  let ?r500 = "\<lparr>rs_status = 500, rs_text = ascii ''oops'', rs_content = Inr None\<rparr>"
  have k: "truthy_str (Some (ascii ''sk-1''))" by (simp add: truthy_str_def ascii_def)
  have u: "User_findByTelegramId sample_db 42 = Some sample_user" by (rule sample_user_found)
  have f: "getUserMessages sample_db 42 (analysis_limit (Some 30)) = Inr ?msgs"
    by (simp add: analysis_limit_def truthy_num_def sample_fetch)
  have n: "?msgs \<noteq> []" by simp
  have o: "\<not> ok ?r402" "\<not> ok ?r500" by (simp_all add: ok_def)
  from C2_deepseek_single_request [of "Some (ascii ''sk-1'')" "\<lambda>prompt. Inr ?r402" sample_db 42
      "Some 30" sample_user ?msgs ?r402] k u f n o
  have a: "fst (DeepSeekService_analyzeUser (Some (ascii ''sk-1'')) (\<lambda>prompt. Inr ?r402)
          sample_db 42 (Some 30)) = Inl (Error DEEPSEEK_INSUFFICIENT_BALANCE)"
    by simp
  from C2_deepseek_single_request [of "Some (ascii ''sk-1'')" "\<lambda>prompt. Inr ?r500" sample_db 42
      "Some 30" sample_user ?msgs ?r500] k u f n o
  have b: "fst (DeepSeekService_analyzeUser (Some (ascii ''sk-1'')) (\<lambda>prompt. Inr ?r500)
          sample_db 42 (Some 30)) = Inl (Error (deepseek_api_error 500 (ascii ''oops'')))"
    and c: "length (snd (DeepSeekService_analyzeUser (Some (ascii ''sk-1'')) (\<lambda>prompt. Inr ?r500)
          sample_db 42 (Some 30))) = 1"
    by simp_all
  from a b c show ?thesis by blast
qed

subsection \<open>Idempotent insertion of messages\<close>

lemma Message_create_conflict:
  "rows_with db (cm_telegram_message_id d) (cm_chat_id d) \<noteq> [] \<Longrightarrow>
     fst (Message_create db now d) = Inr None
     \<and> db_messages (snd (Message_create db now d)) = db_messages db"
  by (simp add: Message_create_def Let_def)

lemma db_users_create: "db_users (snd (Message_create db now d)) = db_users db"
  by (simp add: Message_create_def Let_def)

lemma rows_with_create_present:
  "rows_with db tm c \<noteq> [] \<Longrightarrow> rows_with (snd (Message_create db now d)) tm c = rows_with db tm c"
  by (auto simp: Message_create_def Let_def rows_with_def)

lemma rows_with_creates_present:
  "rows_with db tm c \<noteq> [] \<Longrightarrow> rows_with (creates db ops) tm c = rows_with db tm c"
proof (induction ops arbitrary: db)
  case Nil
  show ?case by (simp add: creates_def)
next
  case (Cons op ops)
  obtain now d where op: "op = (now, d)" by (cases op)
  have step: "creates db (op # ops) = creates (snd (Message_create db now d)) ops"
    by (simp add: creates_def op)
  have keep: "rows_with (snd (Message_create db now d)) tm c = rows_with db tm c"
    using Cons.prems by (rule rows_with_create_present)
  with Cons.prems have "rows_with (snd (Message_create db now d)) tm c \<noteq> []" by simp
  from Cons.IH [OF this] keep step show ?case by simp
qed

lemma rows_with_create_at_most_one:
  "length (rows_with db tm c) \<le> 1 \<Longrightarrow> length (rows_with (snd (Message_create db now d)) tm c) \<le> 1"
  by (auto simp: Message_create_def Let_def rows_with_def)

text \<open>
  Claim C3.  Take a pair (telegram_message_id, chat_id) that is not yet in the table.
  The first \<open>Message.create\<close> with that pair (for a user that exists, as the foreign key
  demands) returns the row it inserts.  After any run of further inserts, a later
  \<open>Message.create\<close> with the same pair returns \<open>null\<close>, raises no error and leaves
  the stored rows as they are, whatever its user and text; the table holds exactly one
  row with that pair, the first one.  In any state of the table, an insert whose pair
  is already stored returns \<open>null\<close> and changes no row, and an insert never brings the
  number of rows with a given pair above one.
\<close>

theorem C3_idempotent_insert:
  assumes "rows_with db (cm_telegram_message_id d1) (cm_chat_id d1) = []"
    and "find (\<lambda>u. ur_id u = cm_user_id d1) (db_users db) \<noteq> None"
    and "cm_telegram_message_id d2 = cm_telegram_message_id d1"
    and "cm_chat_id d2 = cm_chat_id d1"
  shows
    "(rows_with dbx (cm_telegram_message_id dx) (cm_chat_id dx) \<noteq> [] \<longrightarrow>
        fst (Message_create dbx tx dx) = Inr None
        \<and> db_messages (snd (Message_create dbx tx dx)) = db_messages dbx)
     \<and> (length (rows_with dbx tm c) \<le> 1 \<longrightarrow>
          length (rows_with (snd (Message_create dbx tx dx)) tm c) \<le> 1)
     \<and> (let row1 = \<lparr>mr_id = db_messages_id_seq db + 1, mr_user_id = cm_user_id d1,
                   mr_telegram_message_id = cm_telegram_message_id d1,
                   mr_chat_id = cm_chat_id d1, mr_text = cm_text d1, mr_created_at = t1\<rparr>;
          db1 = snd (Message_create db t1 d1);
          db2 = creates db1 ops;
          db3 = snd (Message_create db2 t2 d2)
      in fst (Message_create db t1 d1) = Inr (Some row1)
         \<and> db_messages db1 = db_messages db @ [row1]
         \<and> fst (Message_create db2 t2 d2) = Inr None
         \<and> db_messages db3 = db_messages db2
         \<and> rows_with db3 (cm_telegram_message_id d1) (cm_chat_id d1) = [row1])"
proof -
  let ?row1 = "\<lparr>mr_id = db_messages_id_seq db + 1, mr_user_id = cm_user_id d1,
                   mr_telegram_message_id = cm_telegram_message_id d1,
                   mr_chat_id = cm_chat_id d1, mr_text = cm_text d1, mr_created_at = t1\<rparr>"
  let ?db1 = "snd (Message_create db t1 d1)"
  let ?db2 = "creates ?db1 ops"
  let ?db3 = "snd (Message_create ?db2 t2 d2)"
  let ?tm = "cm_telegram_message_id d1" and ?c = "cm_chat_id d1"
  have a: "fst (Message_create db t1 d1) = Inr (Some ?row1)"
    and b: "db_messages ?db1 = db_messages db @ [?row1]"
    using assms(1,2) by (auto simp: Message_create_def Let_def)
  have r1: "rows_with ?db1 ?tm ?c = [?row1]"
    using assms(1) by (simp add: rows_with_def b)
  then have r2: "rows_with ?db2 ?tm ?c = [?row1]"
    using rows_with_creates_present [of ?db1 ?tm ?c ops] by simp
  then have ne: "rows_with ?db2 (cm_telegram_message_id d2) (cm_chat_id d2) \<noteq> []"
    by (simp add: assms(3,4))
  from Message_create_conflict [OF ne]
  have c: "fst (Message_create ?db2 t2 d2) = Inr None"
    and d: "db_messages ?db3 = db_messages ?db2"
    by simp_all
  have e: "rows_with ?db3 ?tm ?c = [?row1]"
    using r2 d by (simp add: rows_with_def)
  have g1: "rows_with dbx (cm_telegram_message_id dx) (cm_chat_id dx) \<noteq> [] \<longrightarrow>
        fst (Message_create dbx tx dx) = Inr None
        \<and> db_messages (snd (Message_create dbx tx dx)) = db_messages dbx"
    using Message_create_conflict [of dbx dx tx] by blast
  have g2: "length (rows_with dbx tm c) \<le> 1 \<longrightarrow>
          length (rows_with (snd (Message_create dbx tx dx)) tm c) \<le> 1"
    using rows_with_create_at_most_one [of dbx tm c tx dx] by blast
  from a b c d e g1 g2 show ?thesis by (simp add: Let_def)
qed

theorem C3_idempotent_insert_witness:
  "fst (Message_create sample_db_empty 100
          \<lparr>cm_user_id = 1, cm_telegram_message_id = 500, cm_chat_id = -1001, cm_text = ascii ''hello''\<rparr>)
     = Inr (Some \<lparr>mr_id = 1, mr_user_id = 1, mr_telegram_message_id = 500, mr_chat_id = -1001,
                  mr_text = ascii ''hello'', mr_created_at = 100\<rparr>)
   \<and> fst (Message_create
            (creates (snd (Message_create sample_db_empty 100
               \<lparr>cm_user_id = 1, cm_telegram_message_id = 500, cm_chat_id = -1001, cm_text = ascii ''hello''\<rparr>))
               [(110, \<lparr>cm_user_id = 1, cm_telegram_message_id = 501, cm_chat_id = -1001, cm_text = ascii ''more''\<rparr>)])
            120 \<lparr>cm_user_id = 1, cm_telegram_message_id = 500, cm_chat_id = -1001, cm_text = ascii ''hello again''\<rparr>)
     = Inr None"
proof -
  let ?d1 = "\<lparr>cm_user_id = 1, cm_telegram_message_id = 500, cm_chat_id = -1001, cm_text = ascii ''hello''\<rparr>"
  let ?d2 = "\<lparr>cm_user_id = 1, cm_telegram_message_id = 500, cm_chat_id = -1001, cm_text = ascii ''hello again''\<rparr>"
  let ?ops = "[(110::int, \<lparr>cm_user_id = 1, cm_telegram_message_id = 501, cm_chat_id = -1001, cm_text = ascii ''more''\<rparr>)]"
  have f: "rows_with sample_db_empty (cm_telegram_message_id ?d1) (cm_chat_id ?d1) = []"
    by (simp add: rows_with_def sample_db_empty_def)
  have u: "find (\<lambda>u. ur_id u = cm_user_id ?d1) (db_users sample_db_empty) \<noteq> None"
    by (simp add: sample_db_empty_def sample_user_def)
  have k: "cm_telegram_message_id ?d2 = cm_telegram_message_id ?d1" "cm_chat_id ?d2 = cm_chat_id ?d1"
    by simp_all
  from C3_idempotent_insert [OF f u k, of sample_db_empty ?d1 100 "cm_telegram_message_id ?d1"
      "cm_chat_id ?d1" 100 ?ops 120]
  show ?thesis by (simp add: Let_def sample_db_empty_def)
qed

subsection \<open>Provider fallback in the analysis orchestrator\<close>

lemma insufficient_recognised:
  "includes_str (err_message (Error DEEPSEEK_INSUFFICIENT_BALANCE)) (ascii ''INSUFFICIENT_BALANCE'')"
  by (simp add: Error_def DEEPSEEK_INSUFFICIENT_BALANCE_def ascii_def)

lemma Provider_cases: "isl x \<or> x = Inr None \<or> (\<exists>a. x = Inr (Some a))"
  by (cases x) auto

lemma show_nat_digit: "c \<in> set (show_nat n) \<Longrightarrow> 48 \<le> c \<and> c \<le> 57"
proof (induction n arbitrary: c rule: show_nat.induct)
  case (1 n)
  show ?case
  proof (cases "n < 10")
    case True
    with "1.prems" show ?thesis by (simp add: show_nat.simps [of n])
  next
    case False
    with "1.prems" have "c \<in> set (show_nat (n div 10)) \<or> c = 48 + n mod 10"
      by (auto simp: show_nat.simps [of n])
    then show ?thesis
    proof
      assume "c \<in> set (show_nat (n div 10))"
      with False show ?thesis using "1.IH" by blast
    next
      assume "c = 48 + n mod 10"
      then show ?thesis by simp
    qed
  qed
qed

lemma includes_str_skip:
  "\<forall>c \<in> set a. c \<noteq> m \<Longrightarrow> includes_str (a @ s) (m # ms) = includes_str s (m # ms)"
  by (induction a) auto

lemma generic_error_marker:
  "includes_str (err_message (Error (deepseek_api_error status body)))
       (ascii ''INSUFFICIENT_BALANCE'')
     = includes_str body (ascii ''INSUFFICIENT_BALANCE'')"
proof -
  have d: "\<forall>c \<in> set (show_nat status). c \<noteq> 73"
    using show_nat_digit [of _ status] by fastforce
  have m: "ascii ''INSUFFICIENT_BALANCE'' = 73 # ascii ''NSUFFICIENT_BALANCE''"
    by (simp add: ascii_def)
  have "includes_str (err_message (Error (deepseek_api_error status body)))
          (73 # ascii ''NSUFFICIENT_BALANCE'')
        = includes_str (show_nat status @ (ascii '' - '' @ body)) (73 # ascii ''NSUFFICIENT_BALANCE'')"
    by (simp add: Error_def deepseek_api_error_def ascii_def)
  also have "\<dots> = includes_str (ascii '' - '' @ body) (73 # ascii ''NSUFFICIENT_BALANCE'')"
    using d by (rule includes_str_skip)
  also have "\<dots> = includes_str body (73 # ascii ''NSUFFICIENT_BALANCE'')"
    by (simp add: ascii_def)
  finally show ?thesis unfolding m .
qed

lemma sample_generic_error:
  "fst (DeepSeekService_analyzeUser (Some (ascii ''sk-1''))
          (\<lambda>prompt. Inr \<lparr>rs_status = 500, rs_text = ascii ''upstream: INSUFFICIENT_BALANCE'',
                           rs_content = Inr None\<rparr>)
          sample_db 42 (Some 30))
     = Inl (Error (deepseek_api_error 500 (ascii ''upstream: INSUFFICIENT_BALANCE'')))"
proof -
  have k: "truthy_str (Some (ascii ''sk-1''))" by (simp add: truthy_str_def ascii_def)
  have f: "getUserMessages sample_db 42 (analysis_limit (Some 30))
             = Inr [ascii ''lunch?'', ascii ''build is green'', ascii ''hello'']"
    by (simp add: analysis_limit_def truthy_num_def sample_fetch)
  show ?thesis
    using k by (simp add: DeepSeekService_analyzeUser_def sample_user_found f ok_def)
qed

lemma sample_body_marker:
  "includes_str (ascii ''upstream: INSUFFICIENT_BALANCE'') (ascii ''INSUFFICIENT_BALANCE'')"
  by (simp add: ascii_def)

text \<open>
  Claim C1, as the specification states it, fails where it tells the two kinds of
  DeepSeek failure apart.  The handler recognises the insufficient-balance kind by the
  text \<open>INSUFFICIENT_BALANCE\<close> in the message of the error, and the generic API error
  of the DeepSeek client carries the response body in its message.  A response with
  status 500 whose body holds that text makes the client throw the generic error, not
  the distinguished one; with Qwen and Gemini unavailable the handler then surfaces the
  message that DeepSeek is out of funds, not the error recorded last.
\<close>

theorem C1_marker_in_body_counterexample:
  "fst (DeepSeekService_analyzeUser (Some (ascii ''sk-1''))
          (\<lambda>prompt. Inr \<lparr>rs_status = 500, rs_text = ascii ''upstream: INSUFFICIENT_BALANCE'',
                           rs_content = Inr None\<rparr>)
          sample_db 42 (Some 30))
     = Inl (Error (deepseek_api_error 500 (ascii ''upstream: INSUFFICIENT_BALANCE'')))
   \<and> Error (deepseek_api_error 500 (ascii ''upstream: INSUFFICIENT_BALANCE''))
       \<noteq> Error DEEPSEEK_INSUFFICIENT_BALANCE
   \<and> handleAnalyzeCommand_analysis (\<lambda>p. p = DeepSeek)
        (\<lambda>p. fst (DeepSeekService_analyzeUser (Some (ascii ''sk-1''))
          (\<lambda>prompt. Inr \<lparr>rs_status = 500, rs_text = ascii ''upstream: INSUFFICIENT_BALANCE'',
                           rs_content = Inr None\<rparr>)
          sample_db 42 (Some 30)))
       = (Inl (Error no_alternative), [DeepSeek])
   \<and> Error no_alternative
       \<noteq> Error (deepseek_api_error 500 (ascii ''upstream: INSUFFICIENT_BALANCE''))"
proof -
  have a: "Error (deepseek_api_error 500 (ascii ''upstream: INSUFFICIENT_BALANCE''))
       \<noteq> Error DEEPSEEK_INSUFFICIENT_BALANCE"
    by (simp add: Error_def deepseek_api_error_def DEEPSEEK_INSUFFICIENT_BALANCE_def ascii_def)
  have b: "Error no_alternative
       \<noteq> Error (deepseek_api_error 500 (ascii ''upstream: INSUFFICIENT_BALANCE''))"
    by (simp add: Error_def deepseek_api_error_def no_alternative_def ascii_def)
  have c: "handleAnalyzeCommand_analysis (\<lambda>p. p = DeepSeek)
        (\<lambda>p. Inl (Error (deepseek_api_error 500 (ascii ''upstream: INSUFFICIENT_BALANCE''))))
       = (Inl (Error no_alternative), [DeepSeek])"
    by (simp add: handleAnalyzeCommand_analysis_def providers_def initial_loop_state_def
          generic_error_marker sample_body_marker)
  show ?thesis unfolding sample_generic_error using a b c by simp
qed

text \<open>
  Claim C1, amended.  Let \<open>avail\<close> be the available providers in the order DeepSeek,
  Qwen, Gemini, \<open>failed\<close> its longest initial run of providers whose \<open>analyzeUser\<close>
  throws and \<open>answered\<close> the rest.  The providers whose \<open>analyzeUser\<close> is called are
  exactly \<open>failed\<close> followed by the first provider that returns, if there is one: the
  order is fixed, an unavailable provider is never called, and no provider is called
  after the first that returns, whether it returns an analysis or \<open>null\<close>.  When that
  provider returns an analysis, the analysis is the outcome, with the provider's name.
  When every provider that was tried has thrown, the error that surfaces is the message
  that DeepSeek is out of funds and no alternative is available if DeepSeek was tried,
  the message of its error contains \<open>INSUFFICIENT_BALANCE\<close> and Qwen and Gemini are both
  unavailable; otherwise it is the error recorded last.  The distinguished error
  \<open>DEEPSEEK_INSUFFICIENT_BALANCE\<close> contains that text, and a generic API error of the
  DeepSeek client contains it exactly when the response body does.  When no error was
  recorded (no provider was tried, or the first provider called returned \<open>null\<close>), the
  handler's own message that no provider could do the analysis surfaces; when a
  provider returned \<open>null\<close> after failures, the error recorded last surfaces.
\<close>

theorem C1_provider_fallback:
  "(let avail = filter isAvailable [DeepSeek, Qwen, Gemini];
        failed = takeWhile (\<lambda>p. isl (analyzeUser p)) avail;
        answered = dropWhile (\<lambda>p. isl (analyzeUser p)) avail;
        outcome = fst (handleAnalyzeCommand_analysis isAvailable analyzeUser);
        invoked = snd (handleAnalyzeCommand_analysis isAvailable analyzeUser)
    in invoked = failed @ take 1 answered
       \<and> (\<forall>p \<in> set invoked. isAvailable p)
       \<and> (case answered of
             p # rest \<Rightarrow>
               (case analyzeUser p of
                  Inr (Some analysis) \<Rightarrow> outcome = Inr (analysis, provider_name p)
                | _ \<Rightarrow> outcome = Inl (if failed = [] then Error no_provider
                                      else projl (analyzeUser (last failed))))
           | [] \<Rightarrow>
               outcome = Inl
                 (if isAvailable DeepSeek
                     \<and> includes_str (err_message (projl (analyzeUser DeepSeek)))
                           (ascii ''INSUFFICIENT_BALANCE'')
                     \<and> \<not> isAvailable Qwen \<and> \<not> isAvailable Gemini
                  then Error no_alternative
                  else if failed = [] then Error no_provider
                  else projl (analyzeUser (last failed)))))
   \<and> includes_str (err_message (Error DEEPSEEK_INSUFFICIENT_BALANCE))
       (ascii ''INSUFFICIENT_BALANCE'')
   \<and> (includes_str (err_message (Error (deepseek_api_error status body)))
        (ascii ''INSUFFICIENT_BALANCE'')
      = includes_str body (ascii ''INSUFFICIENT_BALANCE''))"
proof -
  have main: "(let avail = filter isAvailable [DeepSeek, Qwen, Gemini];
          failed = takeWhile (\<lambda>p. isl (analyzeUser p)) avail;
          answered = dropWhile (\<lambda>p. isl (analyzeUser p)) avail;
          outcome = fst (handleAnalyzeCommand_analysis isAvailable analyzeUser);
          invoked = snd (handleAnalyzeCommand_analysis isAvailable analyzeUser)
      in invoked = failed @ take 1 answered
         \<and> (\<forall>p \<in> set invoked. isAvailable p)
         \<and> (case answered of
               p # rest \<Rightarrow>
                 (case analyzeUser p of
                    Inr (Some analysis) \<Rightarrow> outcome = Inr (analysis, provider_name p)
                  | _ \<Rightarrow> outcome = Inl (if failed = [] then Error no_provider
                                        else projl (analyzeUser (last failed))))
             | [] \<Rightarrow>
                 outcome = Inl
                   (if isAvailable DeepSeek
                       \<and> includes_str (err_message (projl (analyzeUser DeepSeek)))
                             (ascii ''INSUFFICIENT_BALANCE'')
                       \<and> \<not> isAvailable Qwen \<and> \<not> isAvailable Gemini
                    then Error no_alternative
                    else if failed = [] then Error no_provider
                    else projl (analyzeUser (last failed)))))"
  proof -
    consider (d) "isl (analyzeUser DeepSeek)" | (dn) "analyzeUser DeepSeek = Inr None"
      | (ds) a where "analyzeUser DeepSeek = Inr (Some a)"
      using Provider_cases by blast
    then show ?thesis
    proof cases
      case d
      then obtain e1 where e1: "analyzeUser DeepSeek = Inl e1" by (cases "analyzeUser DeepSeek") auto
      consider (q) "isl (analyzeUser Qwen)" | (qn) "analyzeUser Qwen = Inr None"
        | (qs) a where "analyzeUser Qwen = Inr (Some a)"
        using Provider_cases by blast
      then show ?thesis
      proof cases
        case q
        then obtain e2 where e2: "analyzeUser Qwen = Inl e2" by (cases "analyzeUser Qwen") auto
        show ?thesis
          by (cases "analyzeUser Gemini"; cases "isAvailable DeepSeek"; cases "isAvailable Qwen";
              cases "isAvailable Gemini")
             (auto simp: handleAnalyzeCommand_analysis_def providers_def initial_loop_state_def
                Let_def e1 e2 insufficient_recognised split: option.splits)
      next
        case qn
        show ?thesis
          by (cases "analyzeUser Gemini"; cases "isAvailable DeepSeek"; cases "isAvailable Qwen";
              cases "isAvailable Gemini")
             (auto simp: handleAnalyzeCommand_analysis_def providers_def initial_loop_state_def
                Let_def e1 qn insufficient_recognised split: option.splits)
      next
        case qs
        show ?thesis
          by (cases "analyzeUser Gemini"; cases "isAvailable DeepSeek"; cases "isAvailable Qwen";
              cases "isAvailable Gemini")
             (auto simp: handleAnalyzeCommand_analysis_def providers_def initial_loop_state_def
                Let_def e1 qs insufficient_recognised split: option.splits)
      qed
    next
      case dn
      show ?thesis
        by (cases "analyzeUser Qwen"; cases "analyzeUser Gemini"; cases "isAvailable DeepSeek";
            cases "isAvailable Qwen"; cases "isAvailable Gemini")
           (auto simp: handleAnalyzeCommand_analysis_def providers_def initial_loop_state_def
              Let_def dn insufficient_recognised split: option.splits)
    next
      case ds
      show ?thesis
        by (cases "analyzeUser Qwen"; cases "analyzeUser Gemini"; cases "isAvailable DeepSeek";
            cases "isAvailable Qwen"; cases "isAvailable Gemini")
           (auto simp: handleAnalyzeCommand_analysis_def providers_def initial_loop_state_def
              Let_def ds insufficient_recognised split: option.splits)
    qed
  qed
  have kind: "includes_str (err_message (Error DEEPSEEK_INSUFFICIENT_BALANCE))
       (ascii ''INSUFFICIENT_BALANCE'')"
    by (rule insufficient_recognised)
  have generic: "includes_str (err_message (Error (deepseek_api_error status body)))
        (ascii ''INSUFFICIENT_BALANCE'')
      = includes_str body (ascii ''INSUFFICIENT_BALANCE'')"
    by (rule generic_error_marker)
  from main kind generic show ?thesis by (intro conjI)
qed

theorem C1_provider_fallback_witness:
  "handleAnalyzeCommand_analysis (\<lambda>p. p = DeepSeek)
        (\<lambda>p. Inl (Error DEEPSEEK_INSUFFICIENT_BALANCE))
     = (Inl (Error no_alternative), [DeepSeek])
   \<and> handleAnalyzeCommand_analysis (\<lambda>p. p \<noteq> Qwen)
        (\<lambda>p. if p = DeepSeek then Inl (Error (deepseek_api_error 500 (ascii ''down'')))
              else Inr (Some insufficient_data))
     = (Inr (insufficient_data, ascii ''Gemini''), [DeepSeek, Gemini])
   \<and> handleAnalyzeCommand_analysis (\<lambda>p. p = DeepSeek)
        (\<lambda>p. Inl (Error (deepseek_api_error 500 (ascii ''upstream: INSUFFICIENT_BALANCE''))))
     = (Inl (Error no_alternative), [DeepSeek])
   \<and> handleAnalyzeCommand_analysis (\<lambda>p. p = DeepSeek)
        (\<lambda>p. Inl (Error (deepseek_api_error 500 (ascii ''down''))))
     = (Inl (Error (deepseek_api_error 500 (ascii ''down''))), [DeepSeek])
   \<and> handleAnalyzeCommand_analysis (\<lambda>p. False) (\<lambda>p. Inr None)
     = (Inl (Error no_provider), [])
   \<and> handleAnalyzeCommand_analysis (\<lambda>p. True)
        (\<lambda>p. if p = DeepSeek then Inl (Error DEEPSEEK_INSUFFICIENT_BALANCE) else Inr None)
     = (Inl (Error DEEPSEEK_INSUFFICIENT_BALANCE), [DeepSeek, Qwen])"
proof -
  note a = C1_provider_fallback [of "\<lambda>p. p = DeepSeek"
      "\<lambda>p. Inl (Error DEEPSEEK_INSUFFICIENT_BALANCE)", THEN conjunct1, unfolded Let_def,
      simplified]
  note b = C1_provider_fallback [of "\<lambda>p. p \<noteq> Qwen"
      "\<lambda>p. if p = DeepSeek then Inl (Error (deepseek_api_error 500 (ascii ''down'')))
                else Inr (Some insufficient_data)", THEN conjunct1, unfolded Let_def, simplified]
  note c = C1_provider_fallback [of "\<lambda>p. p = DeepSeek"
      "\<lambda>p. Inl (Error (deepseek_api_error 500 (ascii ''upstream: INSUFFICIENT_BALANCE'')))",
      THEN conjunct1, unfolded Let_def, simplified]
  note d = C1_provider_fallback [of "\<lambda>p. p = DeepSeek"
      "\<lambda>p. Inl (Error (deepseek_api_error 500 (ascii ''down'')))",
      THEN conjunct1, unfolded Let_def, simplified]
  note e = C1_provider_fallback [of "\<lambda>p. False" "\<lambda>p. Inr None",
      THEN conjunct1, unfolded Let_def, simplified]
  note f = C1_provider_fallback [of "\<lambda>p. True"
      "\<lambda>p. if p = DeepSeek then Inl (Error DEEPSEEK_INSUFFICIENT_BALANCE) else Inr None",
      THEN conjunct1, unfolded Let_def, simplified]
  have m: "\<not> includes_str (ascii ''down'') (ascii ''INSUFFICIENT_BALANCE'')"
    by (simp add: ascii_def)
  have 1: "handleAnalyzeCommand_analysis (\<lambda>p. p = DeepSeek)
        (\<lambda>p. Inl (Error DEEPSEEK_INSUFFICIENT_BALANCE))
     = (Inl (Error no_alternative), [DeepSeek])"
    by (simp add: prod_eq_iff a [THEN conjunct1] a [THEN conjunct2, THEN conjunct2]
          insufficient_recognised)
  have 2: "handleAnalyzeCommand_analysis (\<lambda>p. p \<noteq> Qwen)
        (\<lambda>p. if p = DeepSeek then Inl (Error (deepseek_api_error 500 (ascii ''down'')))
              else Inr (Some insufficient_data))
     = (Inr (insufficient_data, ascii ''Gemini''), [DeepSeek, Gemini])"
    by (simp add: prod_eq_iff b [THEN conjunct1] b [THEN conjunct2, THEN conjunct2]
          provider_name_def)
  have 3: "handleAnalyzeCommand_analysis (\<lambda>p. p = DeepSeek)
        (\<lambda>p. Inl (Error (deepseek_api_error 500 (ascii ''upstream: INSUFFICIENT_BALANCE''))))
     = (Inl (Error no_alternative), [DeepSeek])"
    by (simp add: prod_eq_iff c [THEN conjunct1] c [THEN conjunct2, THEN conjunct2]
          generic_error_marker sample_body_marker)
  have 4: "handleAnalyzeCommand_analysis (\<lambda>p. p = DeepSeek)
        (\<lambda>p. Inl (Error (deepseek_api_error 500 (ascii ''down''))))
     = (Inl (Error (deepseek_api_error 500 (ascii ''down''))), [DeepSeek])"
    by (simp add: prod_eq_iff d [THEN conjunct1] d [THEN conjunct2, THEN conjunct2]
          generic_error_marker m)
  have 5: "handleAnalyzeCommand_analysis (\<lambda>p. False) (\<lambda>p. Inr None)
     = (Inl (Error no_provider), [])"
    by (simp add: prod_eq_iff e)
  have 6: "handleAnalyzeCommand_analysis (\<lambda>p. True)
        (\<lambda>p. if p = DeepSeek then Inl (Error DEEPSEEK_INSUFFICIENT_BALANCE) else Inr None)
     = (Inl (Error DEEPSEEK_INSUFFICIENT_BALANCE), [DeepSeek, Qwen])"
    by (simp add: prod_eq_iff f [THEN conjunct1] f [THEN conjunct2])
  from 1 2 3 4 5 6 show ?thesis by (intro conjI)
qed

subsection \<open>Action items of the digest\<close>

lemmas digest_eval = actionItems_def actionBlock_def group_or_def group_between_def starts_ci_def
  canonicalize_def trim_def isWhiteSpace_def strip_bullet_def ascii_def

text \<open>
  Claim C5, as the specification states it, fails: the list of action items can be
  empty.  When the section between \<open>Action items:\<close> and \<open>Context:\<close> holds a bare
  bullet, the section is not empty, so the fixed entry is not used, and its only line
  is dropped after the bullet is stripped.
\<close>

theorem C5_bare_bullet_counterexample:
  "actionItems sample_digest_bare = []"
  by (simp add: sample_digest_bare_def digest_eval)

lemma trim_padded:
  assumes w: "\<forall>c \<in> set w. isWhiteSpace c" and w': "\<forall>c \<in> set w'. isWhiteSpace c"
    and x: "x \<noteq> [] \<longrightarrow> \<not> isWhiteSpace (hd x) \<and> \<not> isWhiteSpace (last x)"
  shows "trim (w @ x @ w') = x"
proof (cases "x = []")
  case True
  have d: "dropWhile isWhiteSpace (w @ [] @ w') = []"
    using w w' by (auto simp: dropWhile_eq_Nil_conv)
  show ?thesis unfolding True trim_def d by simp
next
  case False
  with x have h: "\<not> isWhiteSpace (hd x)" and l: "\<not> isWhiteSpace (last x)" by simp_all
  from False h have a: "dropWhile isWhiteSpace (x @ w') = x @ w'"
    by (cases x) simp_all
  from False l have b: "dropWhile isWhiteSpace (rev x) = rev x"
    by (cases x rule: rev_cases) simp_all
  have "dropWhile isWhiteSpace (w @ x @ w') = x @ w'"
    using w a by (simp add: dropWhile_append2)
  moreover have "dropWhile isWhiteSpace (rev w' @ rev x) = dropWhile isWhiteSpace (rev x)"
    using w' by (intro dropWhile_append2) simp
  moreover note b
  ultimately show ?thesis by (simp add: trim_def)
qed

lemma hyphen_not_white: "\<not> isWhiteSpace 45"
  by (simp add: isWhiteSpace_def)

lemma item_of_line:
  assumes w: "\<forall>c \<in> set w. isWhiteSpace c" and w': "\<forall>c \<in> set w'. isWhiteSpace c"
    and x: "x \<noteq> [] \<longrightarrow> \<not> isWhiteSpace (hd x) \<and> \<not> isWhiteSpace (last x) \<and> (w = [] \<longrightarrow> hd x \<noteq> 45)"
  shows "trim (strip_bullet (replicate k 45 @ w @ x @ w')) = x"
proof -
  let ?rest = "w @ x @ w'"
  have rest: "dropWhile (\<lambda>d. d = 45) ?rest = ?rest"
  proof (cases ?rest)
    case Nil then show ?thesis by simp
  next
    case (Cons c cs)
    have "c \<noteq> 45"
    proof (cases w)
      case (Cons a as)
      with \<open>?rest = c # cs\<close> w hyphen_not_white show ?thesis by auto
    next
      case Nil
      show ?thesis
      proof (cases x)
        case (Cons a as)
        with Nil \<open>?rest = c # cs\<close> x show ?thesis by auto
      next
        case Nil
        with \<open>w = []\<close> \<open>?rest = c # cs\<close> w' hyphen_not_white show ?thesis by auto
      qed
    qed
    with Cons show ?thesis by simp
  qed
  have t: "trim ?rest = x"
    using w w' x by (intro trim_padded) simp_all
  show ?thesis
  proof (cases k)
    case 0
    have "strip_bullet ?rest = ?rest \<or> strip_bullet ?rest = dropWhile isWhiteSpace ?rest"
      using rest by (auto simp: strip_bullet_def split: list.splits)
    with t 0 show ?thesis by (auto simp: trim_dropWhile)
  next
    case (Suc n)
    have "dropWhile (\<lambda>d. d = 45) (replicate k 45 @ ?rest) = dropWhile (\<lambda>d. d = 45) ?rest"
      by (induction k) simp_all
    with rest have "dropWhile (\<lambda>d. d = 45) (replicate k 45 @ ?rest) = ?rest"
      by simp
    then have "strip_bullet (replicate k 45 @ ?rest) = dropWhile isWhiteSpace ?rest"
      using Suc by (simp add: strip_bullet_def)
    with t show ?thesis by (simp add: trim_dropWhile)
  qed
qed

lemma length_split_nl_pos: "0 < length (split_nl s)"
  by (induction s) (auto split: list.splits)

lemma line_reads:
  "\<exists>k w x w'. line = replicate k 45 @ w @ x @ w'
     \<and> (\<forall>c \<in> set w. isWhiteSpace c) \<and> (\<forall>c \<in> set w'. isWhiteSpace c)
     \<and> (x \<noteq> [] \<longrightarrow> \<not> isWhiteSpace (hd x) \<and> \<not> isWhiteSpace (last x)
                   \<and> (w = [] \<longrightarrow> hd x \<noteq> 45))"
proof -
  define k where "k = length (takeWhile (\<lambda>d. d = 45) line)"
  define r where "r = dropWhile (\<lambda>d. d = 45) line"
  define w where "w = takeWhile isWhiteSpace r"
  define y where "y = dropWhile isWhiteSpace r"
  define x where "x = rev (dropWhile isWhiteSpace (rev y))"
  define w' where "w' = rev (takeWhile isWhiteSpace (rev y))"
  have "takeWhile (\<lambda>d. d = 45) line = replicate k 45"
    unfolding k_def by (induction line) auto
  then have l: "line = replicate k 45 @ r"
    unfolding r_def by (metis takeWhile_dropWhile_id)
  have r: "r = w @ y" unfolding w_def y_def by simp
  have "rev y = rev w' @ rev x" unfolding w'_def x_def by simp
  then have y: "y = x @ w'" by (metis rev_append rev_rev_ident)
  have ws: "\<forall>c \<in> set w. isWhiteSpace c"
    unfolding w_def by (auto dest: set_takeWhileD)
  have ws': "\<forall>c \<in> set w'. isWhiteSpace c"
    unfolding w'_def by (auto dest: set_takeWhileD)
  have hy: "\<not> isWhiteSpace (hd y)" if "y \<noteq> []"
    using that unfolding y_def by (rule hd_dropWhile)
  have hr: "hd r \<noteq> 45" if "r \<noteq> []"
    using that unfolding r_def by (rule hd_dropWhile)
  have xs: "\<not> isWhiteSpace (hd x) \<and> \<not> isWhiteSpace (last x) \<and> (w = [] \<longrightarrow> hd x \<noteq> 45)"
    if x: "x \<noteq> []"
  proof -
    from x y have yn: "y \<noteq> []" and hx: "hd x = hd y" by simp_all
    from x have "dropWhile isWhiteSpace (rev y) \<noteq> []" unfolding x_def by simp
    then have "\<not> isWhiteSpace (hd (dropWhile isWhiteSpace (rev y)))" by (rule hd_dropWhile)
    moreover have "last x = hd (dropWhile isWhiteSpace (rev y))"
      using x unfolding x_def by (simp add: last_rev)
    ultimately have lx: "\<not> isWhiteSpace (last x)" by simp
    have "hd x \<noteq> 45" if "w = []"
    proof -
      from that r have "r = y" by simp
      with yn hr hx show ?thesis by simp
    qed
    with hy [OF yn] hx lx show ?thesis by simp
  qed
  from l r y have "line = replicate k 45 @ w @ x @ w'" by simp
  with ws ws' xs show ?thesis by blast
qed

lemma lines_read:
  "\<exists>ls. lines = map (\<lambda>(k, w, x, w'). replicate k 45 @ w @ x @ w') ls
        \<and> (\<forall>(k, w, x, w') \<in> set ls.
              (\<forall>c \<in> set w. isWhiteSpace c) \<and> (\<forall>c \<in> set w'. isWhiteSpace c)
              \<and> (x \<noteq> [] \<longrightarrow> \<not> isWhiteSpace (hd x) \<and> \<not> isWhiteSpace (last x)
                            \<and> (w = [] \<longrightarrow> hd x \<noteq> 45)))"
proof (induction lines)
  case Nil
  show ?case by (rule exI [of _ "[]"]) simp
next
  case (Cons line lines)
  then obtain ls where ls: "lines = map (\<lambda>(k, w, x, w'). replicate k 45 @ w @ x @ w') ls"
    "\<forall>(k, w, x, w') \<in> set ls.
              (\<forall>c \<in> set w. isWhiteSpace c) \<and> (\<forall>c \<in> set w'. isWhiteSpace c)
              \<and> (x \<noteq> [] \<longrightarrow> \<not> isWhiteSpace (hd x) \<and> \<not> isWhiteSpace (last x)
                            \<and> (w = [] \<longrightarrow> hd x \<noteq> 45))"
    by blast
  from line_reads [of line] obtain k w x w' where p: "line = replicate k 45 @ w @ x @ w'"
    "(\<forall>c \<in> set w. isWhiteSpace c)" "(\<forall>c \<in> set w'. isWhiteSpace c)"
    "x \<noteq> [] \<longrightarrow> \<not> isWhiteSpace (hd x) \<and> \<not> isWhiteSpace (last x) \<and> (w = [] \<longrightarrow> hd x \<noteq> 45)"
    by blast
  show ?case
    by (rule exI [of _ "(k, w, x, w') # ls"]) (use ls p in simp)
qed

text \<open>
  Claim C5, amended.  For every response text, an empty (or missing) action section
  yields exactly one entry, the fixed entry for "no explicit tasks".  In a section that
  is not empty every line reads as leading hyphens (the bullet marker, only at the very
  start of the line), white space, a text that neither begins nor ends with white
  space, and trailing white space; the list holds the texts that are not empty, in the
  order of the lines.  So a section of three bullet lines with a text each yields
  exactly three entries, trimmed and without their markers; a bare bullet yields no
  entry, and an indented bullet keeps its hyphen.  The list has at most as many entries
  as the section has lines, and it is empty exactly when the section is not empty and
  every line of it is blank once its marker and the white space around are removed.
  The \<open>/digest\<close> command handler prints an empty list as it prints the list that holds
  only the fixed entry.
\<close>

theorem C5_action_items:
  "(actionBlock raw = [] \<longrightarrow> actionItems raw = [no_explicit_tasks])
   \<and> (actionBlock raw \<noteq> []
        \<and> split_nl (actionBlock raw) = map (\<lambda>(k, w, x, w'). replicate k 45 @ w @ x @ w') ls
        \<and> (\<forall>(k, w, x, w') \<in> set ls.
              (\<forall>c \<in> set w. isWhiteSpace c) \<and> (\<forall>c \<in> set w'. isWhiteSpace c)
              \<and> (x \<noteq> [] \<longrightarrow> \<not> isWhiteSpace (hd x) \<and> \<not> isWhiteSpace (last x)
                            \<and> (w = [] \<longrightarrow> hd x \<noteq> 45)))
      \<longrightarrow> actionItems raw = filter (\<lambda>x. x \<noteq> []) (map (\<lambda>(k, w, x, w'). x) ls)
          \<and> ((\<forall>(k, w, x, w') \<in> set ls. x \<noteq> [])
              \<longrightarrow> actionItems raw = map (\<lambda>(k, w, x, w'). x) ls
                  \<and> length (actionItems raw) = length (split_nl (actionBlock raw))))
   \<and> (\<exists>ls. split_nl (actionBlock raw) = map (\<lambda>(k, w, x, w'). replicate k 45 @ w @ x @ w') ls
          \<and> (\<forall>(k, w, x, w') \<in> set ls.
                (\<forall>c \<in> set w. isWhiteSpace c) \<and> (\<forall>c \<in> set w'. isWhiteSpace c)
                \<and> (x \<noteq> [] \<longrightarrow> \<not> isWhiteSpace (hd x) \<and> \<not> isWhiteSpace (last x)
                              \<and> (w = [] \<longrightarrow> hd x \<noteq> 45))))
   \<and> (actionItems raw = [] \<longleftrightarrow>
        actionBlock raw \<noteq> []
        \<and> (\<forall>line \<in> set (split_nl (actionBlock raw)). trim (strip_bullet line) = []))
   \<and> length (actionItems raw) \<le> length (split_nl (actionBlock raw))
   \<and> handleDigestCommand_actionItems [] = handleDigestCommand_actionItems [no_explicit_tasks]"
proof -
  have a: "actionBlock raw = [] \<longrightarrow> actionItems raw = [no_explicit_tasks]"
    by (simp add: actionItems_def)
  have e: "actionItems raw = [] \<longleftrightarrow>
        actionBlock raw \<noteq> []
        \<and> (\<forall>line \<in> set (split_nl (actionBlock raw)). trim (strip_bullet line) = [])"
    by (auto simp: actionItems_def filter_empty_conv)
  have l: "length (actionItems raw) \<le> length (split_nl (actionBlock raw))"
  proof (cases "actionBlock raw = []")
    case True
    then show ?thesis using length_split_nl_pos [of "[]"] by (simp add: actionItems_def)
  next
    case False
    have "length (filter (\<lambda>item. item \<noteq> [])
             (map (\<lambda>line. trim (strip_bullet line)) (split_nl (actionBlock raw))))
          \<le> length (map (\<lambda>line. trim (strip_bullet line)) (split_nl (actionBlock raw)))"
      by (rule length_filter_le)
    with False show ?thesis by (simp add: actionItems_def)
  qed
  have h: "handleDigestCommand_actionItems [] = handleDigestCommand_actionItems [no_explicit_tasks]"
    by (simp add: handleDigestCommand_actionItems_def no_explicit_tasks_def)
  have c: "actionItems raw = filter (\<lambda>x. x \<noteq> []) (map (\<lambda>(k, w, x, w'). x) ls)
          \<and> ((\<forall>(k, w, x, w') \<in> set ls. x \<noteq> [])
              \<longrightarrow> actionItems raw = map (\<lambda>(k, w, x, w'). x) ls
                  \<and> length (actionItems raw) = length (split_nl (actionBlock raw)))"
    if blk: "actionBlock raw \<noteq> []"
      and sp: "split_nl (actionBlock raw) = map (\<lambda>(k, w, x, w'). replicate k 45 @ w @ x @ w') ls"
      and ok: "\<forall>(k, w, x, w') \<in> set ls.
              (\<forall>c \<in> set w. isWhiteSpace c) \<and> (\<forall>c \<in> set w'. isWhiteSpace c)
              \<and> (x \<noteq> [] \<longrightarrow> \<not> isWhiteSpace (hd x) \<and> \<not> isWhiteSpace (last x)
                            \<and> (w = [] \<longrightarrow> hd x \<noteq> 45))"
  proof -
    have m: "map (\<lambda>line. trim (strip_bullet line))
               (map (\<lambda>(k, w, x, w'). replicate k 45 @ w @ x @ w') ls)
             = map (\<lambda>(k, w, x, w'). x) ls"
    proof -
      have "trim (strip_bullet ((\<lambda>(k, w, x, w'). replicate k 45 @ w @ x @ w') p))
              = (\<lambda>(k, w, x, w'). x) p" if "p \<in> set ls" for p
      proof -
        obtain k w x w' where p: "p = (k, w, x, w')" by (cases p) auto
        from ok that p have "(\<forall>c \<in> set w. isWhiteSpace c)" "(\<forall>c \<in> set w'. isWhiteSpace c)"
          "x \<noteq> [] \<longrightarrow> \<not> isWhiteSpace (hd x) \<and> \<not> isWhiteSpace (last x) \<and> (w = [] \<longrightarrow> hd x \<noteq> 45)"
          by auto
        then have "trim (strip_bullet (replicate k 45 @ w @ x @ w')) = x" by (rule item_of_line)
        with p show ?thesis by simp
      qed
      then show ?thesis by simp
    qed
    have "actionItems raw
            = filter (\<lambda>item. item \<noteq> [])
                (map (\<lambda>line. trim (strip_bullet line)) (split_nl (actionBlock raw)))"
      using blk by (simp add: actionItems_def)
    then have items: "actionItems raw = filter (\<lambda>x. x \<noteq> []) (map (\<lambda>(k, w, x, w'). x) ls)"
      unfolding sp m .
    have full: "actionItems raw = map (\<lambda>(k, w, x, w'). x) ls
                  \<and> length (actionItems raw) = length (split_nl (actionBlock raw))"
      if "\<forall>(k, w, x, w') \<in> set ls. x \<noteq> []"
    proof -
      from that have "filter (\<lambda>x. x \<noteq> []) (map (\<lambda>(k, w, x, w'). x) ls) = map (\<lambda>(k, w, x, w'). x) ls"
        by (auto simp: filter_id_conv)
      with items have "actionItems raw = map (\<lambda>(k, w, x, w'). x) ls" by simp
      then show ?thesis by (simp add: sp)
    qed
    from items full show ?thesis by blast
  qed
  have c': "(actionBlock raw \<noteq> []
          \<and> split_nl (actionBlock raw) = map (\<lambda>(k, w, x, w'). replicate k 45 @ w @ x @ w') ls
          \<and> (\<forall>(k, w, x, w') \<in> set ls.
                (\<forall>c \<in> set w. isWhiteSpace c) \<and> (\<forall>c \<in> set w'. isWhiteSpace c)
                \<and> (x \<noteq> [] \<longrightarrow> \<not> isWhiteSpace (hd x) \<and> \<not> isWhiteSpace (last x)
                              \<and> (w = [] \<longrightarrow> hd x \<noteq> 45)))
        \<longrightarrow> actionItems raw = filter (\<lambda>x. x \<noteq> []) (map (\<lambda>(k, w, x, w'). x) ls)
            \<and> ((\<forall>(k, w, x, w') \<in> set ls. x \<noteq> [])
                \<longrightarrow> actionItems raw = map (\<lambda>(k, w, x, w'). x) ls
                    \<and> length (actionItems raw) = length (split_nl (actionBlock raw))))"
    using c by blast
  have r: "(\<exists>ls. split_nl (actionBlock raw) = map (\<lambda>(k, w, x, w'). replicate k 45 @ w @ x @ w') ls
            \<and> (\<forall>(k, w, x, w') \<in> set ls.
                  (\<forall>c \<in> set w. isWhiteSpace c) \<and> (\<forall>c \<in> set w'. isWhiteSpace c)
                  \<and> (x \<noteq> [] \<longrightarrow> \<not> isWhiteSpace (hd x) \<and> \<not> isWhiteSpace (last x)
                                \<and> (w = [] \<longrightarrow> hd x \<noteq> 45))))"
    by (rule lines_read)
  from a c' r e l h show ?thesis by (intro conjI)
qed

theorem C5_action_items_witness:
  "actionItems (ascii ''Summary: nothing. Action items: Context: none'') = [no_explicit_tasks]
   \<and> actionItems sample_digest_three
       = [ascii ''fix the build'', ascii ''write tests'', ascii ''ship'']
   \<and> actionItems (ascii ''Action items:'' @ [10] @ ascii ''- a'' @ [10] @ ascii ''-'' @ [10]
                     @ ascii ''- c'' @ [10] @ ascii ''Context: none'')
       = [ascii ''a'', ascii ''c'']
   \<and> actionItems (ascii ''Action items:'' @ [10] @ ascii ''- a'' @ [10] @ ascii ''  - b'' @ [10]
                     @ ascii ''- c'')
       = [ascii ''a'', ascii ''- b'', ascii ''c'']"
proof -
  let ?raw1 = "ascii ''Summary: nothing. Action items: Context: none''"
  let ?raw3 = "ascii ''Action items:'' @ [10] @ ascii ''- a'' @ [10] @ ascii ''-'' @ [10]
                 @ ascii ''- c'' @ [10] @ ascii ''Context: none''"
  let ?raw4 = "ascii ''Action items:'' @ [10] @ ascii ''- a'' @ [10] @ ascii ''  - b'' @ [10]
                 @ ascii ''- c''"
  let ?ls2 = "[(1, ascii '' '', ascii ''fix the build'', []),
               (1, ascii ''   '', ascii ''write tests'', ascii ''  ''),
               (2, ascii '' '', ascii ''ship'', [])] :: (nat \<times> jsstring \<times> jsstring \<times> jsstring) list"
  let ?ls3 = "[(1, ascii '' '', ascii ''a'', []), (1, [], [], []),
               (1, ascii '' '', ascii ''c'', [])] :: (nat \<times> jsstring \<times> jsstring \<times> jsstring) list"
  let ?ls4 = "[(1, ascii '' '', ascii ''a'', []), (0, ascii ''  '', ascii ''- b'', []),
               (1, ascii '' '', ascii ''c'', [])] :: (nat \<times> jsstring \<times> jsstring \<times> jsstring) list"
  have b1: "actionBlock ?raw1 = []"
    by (simp add: digest_eval)
  have b2: "actionBlock sample_digest_three
              = ascii ''- fix the build'' @ [10] @ ascii ''-   write tests  '' @ [10] @ ascii ''-- ship''"
    by (simp add: sample_digest_three_def digest_eval)
  have b3: "actionBlock ?raw3 = ascii ''- a'' @ [10] @ ascii ''-'' @ [10] @ ascii ''- c''"
    by (simp add: digest_eval)
  have b4: "actionBlock ?raw4 = ascii ''- a'' @ [10] @ ascii ''  - b'' @ [10] @ ascii ''- c''"
    by (simp add: digest_eval)
  have h2: "actionBlock sample_digest_three \<noteq> []
        \<and> split_nl (actionBlock sample_digest_three)
            = map (\<lambda>(k, w, x, w'). replicate k 45 @ w @ x @ w') ?ls2
        \<and> (\<forall>(k, w, x, w') \<in> set ?ls2.
              (\<forall>c \<in> set w. isWhiteSpace c) \<and> (\<forall>c \<in> set w'. isWhiteSpace c)
              \<and> (x \<noteq> [] \<longrightarrow> \<not> isWhiteSpace (hd x) \<and> \<not> isWhiteSpace (last x)
                            \<and> (w = [] \<longrightarrow> hd x \<noteq> 45)))"
    unfolding b2 by (simp add: ascii_def isWhiteSpace_def numeral_2_eq_2)
  have h3: "actionBlock ?raw3 \<noteq> []
        \<and> split_nl (actionBlock ?raw3)
            = map (\<lambda>(k, w, x, w'). replicate k 45 @ w @ x @ w') ?ls3
        \<and> (\<forall>(k, w, x, w') \<in> set ?ls3.
              (\<forall>c \<in> set w. isWhiteSpace c) \<and> (\<forall>c \<in> set w'. isWhiteSpace c)
              \<and> (x \<noteq> [] \<longrightarrow> \<not> isWhiteSpace (hd x) \<and> \<not> isWhiteSpace (last x)
                            \<and> (w = [] \<longrightarrow> hd x \<noteq> 45)))"
    unfolding b3 by (simp add: ascii_def isWhiteSpace_def)
  have h4: "actionBlock ?raw4 \<noteq> []
        \<and> split_nl (actionBlock ?raw4)
            = map (\<lambda>(k, w, x, w'). replicate k 45 @ w @ x @ w') ?ls4
        \<and> (\<forall>(k, w, x, w') \<in> set ?ls4.
              (\<forall>c \<in> set w. isWhiteSpace c) \<and> (\<forall>c \<in> set w'. isWhiteSpace c)
              \<and> (x \<noteq> [] \<longrightarrow> \<not> isWhiteSpace (hd x) \<and> \<not> isWhiteSpace (last x)
                            \<and> (w = [] \<longrightarrow> hd x \<noteq> 45)))"
    unfolding b4 by (simp add: ascii_def isWhiteSpace_def)
  note t1 = C5_action_items [of ?raw1 "[]", THEN conjunct1, rule_format, OF b1]
  note t2 = C5_action_items [of sample_digest_three ?ls2, THEN conjunct2, THEN conjunct1,
      rule_format, OF h2, THEN conjunct1]
  note t3 = C5_action_items [of ?raw3 ?ls3, THEN conjunct2, THEN conjunct1,
      rule_format, OF h3, THEN conjunct1]
  note t4 = C5_action_items [of ?raw4 ?ls4, THEN conjunct2, THEN conjunct1,
      rule_format, OF h4, THEN conjunct1]
  have a2: "actionItems sample_digest_three
       = [ascii ''fix the build'', ascii ''write tests'', ascii ''ship'']"
    unfolding t2 by (simp add: ascii_def)
  have a3: "actionItems ?raw3 = [ascii ''a'', ascii ''c'']"
    unfolding t3 by (simp add: ascii_def)
  have a4: "actionItems ?raw4 = [ascii ''a'', ascii ''- b'', ascii ''c'']"
    unfolding t4 by (simp add: ascii_def)
  from t1 a2 a3 a4 show ?thesis by blast
qed

subsection \<open>Date ranges of the statistics periods\<close>

lemma div_succ:
  fixes a n :: int
  assumes "0 < n"
  shows "(a + 1) div n = a div n + (if (a + 1) mod n = 0 then 1 else 0)"
proof -
  have r: "0 \<le> a mod n" "a mod n < n" using assms by simp_all
  have e: "n * (a div n) + a mod n = a" by (rule mult_div_mod_eq)
  show ?thesis
  proof (cases "a mod n + 1 = n")
    case True
    have "n * (a div n + 1) = n * (a div n) + n" by (simp add: distrib_left)
    with e True have eq: "a + 1 = n * (a div n + 1) + 0" by linarith
    have d: "(a + 1) div n = a div n + 1"
      using eq _ assms by (rule int_div_pos_eq) simp
    have m: "(a + 1) mod n = 0"
      using eq _ assms by (rule int_mod_pos_eq) simp
    from d m show ?thesis by simp
  next
    case False
    with r have lt: "a mod n + 1 < n" by linarith
    from e have eq: "a + 1 = n * (a div n) + (a mod n + 1)" by linarith
    have d: "(a + 1) div n = a div n"
      using eq _ lt by (rule int_div_pos_eq) (use r in simp)
    have m: "(a + 1) mod n = a mod n + 1"
      using eq _ lt by (rule int_mod_pos_eq) (use r in simp)
    from r d m show ?thesis by simp
  qed
qed

lemma mod_shift:
  "(y - 1968) mod 4 = y mod (4::int)" "(y - 1900) mod 100 = y mod (100::int)"
  "(y - 1600) mod 400 = y mod (400::int)"
proof -
  have "(y + 4 * (- 492)) mod 4 = y mod 4" by (rule mod_mult_self2)
  then show "(y - 1968) mod 4 = y mod (4::int)" by simp
  have "(y + 100 * (- 19)) mod 100 = y mod 100" by (rule mod_mult_self2)
  then show "(y - 1900) mod 100 = y mod (100::int)" by simp
  have "(y + 400 * (- 4)) mod 400 = y mod 400" by (rule mod_mult_self2)
  then show "(y - 1600) mod 400 = y mod (400::int)" by simp
qed

lemma leap_divisibility:
  fixes y :: int
  shows "y mod 100 = 0 \<Longrightarrow> y mod 4 = 0" "y mod 400 = 0 \<Longrightarrow> y mod 100 = 0"
proof -
  have a: "y mod 100 mod 4 = y mod 4" by (rule mod_mod_cancel) simp
  have b: "y mod 400 mod 100 = y mod 100" by (rule mod_mod_cancel) simp
  show "y mod 100 = 0 \<Longrightarrow> y mod 4 = 0" using a by simp
  show "y mod 400 = 0 \<Longrightarrow> y mod 100 = 0" using b by simp
qed

lemma DayFromYear_Suc:
  "DayFromYear (y + 1) = DayFromYear y + (if isLeapYear y then 366 else 365)"
proof -
  define A B C :: int
    where "A = (if y mod 4 = 0 then 1 else 0)"
      and "B = (if y mod 100 = 0 then 1 else 0)"
      and "C = (if y mod 400 = 0 then 1 else 0)"
  have a: "(y - 1968) div 4 = (y - 1969) div 4 + A"
    using div_succ [of 4 "y - 1969"] by (simp add: mod_shift A_def)
  have b: "(y - 1900) div 100 = (y - 1901) div 100 + B"
    using div_succ [of 100 "y - 1901"] by (simp add: mod_shift B_def)
  have c: "(y - 1600) div 400 = (y - 1601) div 400 + C"
    using div_succ [of 400 "y - 1601"] by (simp add: mod_shift C_def)
  have d: "DayFromYear (y + 1) = DayFromYear y + 365 + A - B + C"
    by (simp add: DayFromYear_def a b c)
  show ?thesis
  proof (cases "y mod 400 = 0")
    case True
    then have "y mod 100 = 0" by (rule leap_divisibility)
    then have "y mod 4 = 0" by (rule leap_divisibility)
    with True \<open>y mod 100 = 0\<close> show ?thesis by (simp add: d isLeapYear_def A_def B_def C_def)
  next
    case n400: False
    show ?thesis
    proof (cases "y mod 100 = 0")
      case True
      then have "y mod 4 = 0" by (rule leap_divisibility)
      with True n400 show ?thesis by (simp add: d isLeapYear_def A_def B_def C_def)
    next
      case False
      with n400 show ?thesis by (simp add: d isLeapYear_def A_def B_def C_def)
    qed
  qed
qed

lemma DayFromYear_mono_nat: "DayFromYear y + 365 * int n \<le> DayFromYear (y + int n)"
proof (induction n)
  case 0
  show ?case by simp
next
  case (Suc n)
  have "y + int (Suc n) = (y + int n) + 1" by simp
  then have "DayFromYear (y + int (Suc n)) = DayFromYear ((y + int n) + 1)"
    by (rule arg_cong)
  also have "\<dots> \<ge> DayFromYear (y + int n) + 365"
    by (simp add: DayFromYear_Suc)
  finally show ?case using Suc by simp
qed

lemma DayFromYear_upper_nat: "DayFromYear (y + int n) \<le> DayFromYear y + 366 * int n"
proof (induction n)
  case 0
  show ?case by simp
next
  case (Suc n)
  have "y + int (Suc n) = (y + int n) + 1" by simp
  then have "DayFromYear (y + int (Suc n)) = DayFromYear ((y + int n) + 1)"
    by (rule arg_cong)
  also have "\<dots> \<le> DayFromYear (y + int n) + 366"
    by (simp add: DayFromYear_Suc)
  finally show ?case using Suc by simp
qed

lemma DayFromYear_strict_mono:
  assumes "y < y'"
  shows "DayFromYear (y + 1) \<le> DayFromYear y'"
proof -
  from assms obtain n where n: "y' = (y + 1) + int n"
    by (metis zle_iff_zadd zless_imp_add1_zle)
  have "DayFromYear (y + 1) \<le> DayFromYear (y + 1) + 365 * int n" by simp
  also have "\<dots> \<le> DayFromYear ((y + 1) + int n)" by (rule DayFromYear_mono_nat)
  finally show ?thesis by (simp add: n)
qed

lemma year_unique:
  assumes "DayFromYear y \<le> d" "d < DayFromYear (y + 1)"
    and "DayFromYear y' \<le> d" "d < DayFromYear (y' + 1)"
  shows "y = y'"
proof (rule ccontr)
  assume "y \<noteq> y'"
  then consider "y < y'" | "y' < y" by linarith
  then show False
  proof cases
    case 1
    from DayFromYear_strict_mono [OF 1] assms show False by linarith
  next
    case 2
    from DayFromYear_strict_mono [OF 2] assms show False by linarith
  qed
qed

lemma DayFromYear_1970: "DayFromYear 1970 = 0"
  by (simp add: DayFromYear_def)

lemma year_search_spec:
  "DayFromYear y0 \<le> d \<Longrightarrow>
     DayFromYear (year_search d y0) \<le> d \<and> d < DayFromYear (year_search d y0 + 1)"
proof (induction d y0 rule: year_search.induct)
  case (1 d y)
  show ?case
  proof (cases "DayFromYear (y + 1) \<le> d")
    case True
    from "1.IH" [OF True True] True show ?thesis
      by (simp add: year_search.simps [of d y])
  next
    case False
    with "1.prems" show ?thesis
      by (simp add: year_search.simps [of d y])
  qed
qed

lemma year_search_ge: "y0 \<le> year_search d y0"
proof (induction d y0 rule: year_search.induct)
  case (1 d y)
  show ?case
  proof (cases "DayFromYear (y + 1) \<le> d")
    case True
    from "1.IH" [OF True] True show ?thesis
      by (simp add: year_search.simps [of d y])
  next
    case False
    then show ?thesis by (simp add: year_search.simps [of d y])
  qed
qed

lemma year_start_ok:
  "DayFromYear (1970 + (if 0 \<le> d then d div 366 else d div 365)) \<le> d"
proof (cases "0 \<le> d")
  case True
  then have q: "0 \<le> d div 366" by simp
  then obtain n where n: "d div 366 = int n" by (metis nonneg_int_cases)
  have "DayFromYear (1970 + int n) \<le> DayFromYear 1970 + 366 * int n"
    by (rule DayFromYear_upper_nat)
  also have "\<dots> = 366 * (d div 366)" by (simp add: DayFromYear_1970 n)
  also have "\<dots> \<le> d" using True by simp
  finally show ?thesis using True by (simp add: n)
next
  case False
  then have "d div 365 < 0" by simp
  then obtain n where n: "d div 365 = - int n"
    by (metis int_cases2 less_le_not_le negative_zless of_nat_0_le_iff neg_le_0_iff_le)
  have "DayFromYear (1970 - int n) + 365 * int n \<le> DayFromYear ((1970 - int n) + int n)"
    by (rule DayFromYear_mono_nat)
  then have "DayFromYear (1970 - int n) \<le> 365 * (d div 365)"
    by (simp add: DayFromYear_1970 n)
  also have "\<dots> \<le> d" by simp
  finally show ?thesis using False by (simp add: n)
qed

lemma YearFromTime_spec:
  "DayFromYear (YearFromTime t) \<le> Day t \<and> Day t < DayFromYear (YearFromTime t + 1)"
  unfolding YearFromTime_def by (rule year_search_spec) (rule year_start_ok)

lemma YearFromTime_eqI:
  "DayFromYear y \<le> Day t \<Longrightarrow> Day t < DayFromYear (y + 1) \<Longrightarrow> YearFromTime t = y"
  using YearFromTime_spec [of t] by (blast intro: year_unique)

lemma YearFromTime_ge_1970: "0 \<le> t \<Longrightarrow> 1970 \<le> YearFromTime t"
proof -
  assume "0 \<le> t"
  then have d: "0 \<le> Day t" by (simp add: Day_def msPerDay_def)
  then have "1970 \<le> 1970 + (if 0 \<le> Day t then Day t div 366 else Day t div 365)" by simp
  also have "\<dots> \<le> YearFromTime t" unfolding YearFromTime_def by (rule year_search_ge)
  finally show ?thesis .
qed



lemma month_cases:
  fixes m :: int
  shows "0 \<le> m \<Longrightarrow> m \<le> 11 \<Longrightarrow>
    m = 0 \<or> m = 1 \<or> m = 2 \<or> m = 3 \<or> m = 4 \<or> m = 5 \<or> m = 6 \<or> m = 7 \<or> m = 8 \<or> m = 9
      \<or> m = 10 \<or> m = 11"
  by arith

lemma month_start_values:
  "month_start 0 l = 0" "month_start 1 l = 31" "month_start 2 l = 59 + l"
  "month_start 3 l = 90 + l" "month_start 4 l = 120 + l" "month_start 5 l = 151 + l"
  "month_start 6 l = 181 + l" "month_start 7 l = 212 + l" "month_start 8 l = 243 + l"
  "month_start 9 l = 273 + l" "month_start 10 l = 304 + l" "month_start 11 l = 334 + l"
  by (simp_all add: month_start_def)

lemma month_len_values:
  "month_len 0 l = 31" "month_len 1 l = 28 + l" "month_len 2 l = 31" "month_len 3 l = 30"
  "month_len 4 l = 31" "month_len 5 l = 30" "month_len 6 l = 31" "month_len 7 l = 31"
  "month_len 8 l = 30" "month_len 9 l = 31" "month_len 10 l = 30" "month_len 11 l = 31"
  by (simp_all add: month_len_def)

lemma month_of_day_values:
  "0 \<le> l \<Longrightarrow> l \<le> 1 \<Longrightarrow> 0 \<le> d \<Longrightarrow> d < 31 \<Longrightarrow> month_of_day d l = 0"
  "0 \<le> l \<Longrightarrow> l \<le> 1 \<Longrightarrow> 31 \<le> d \<Longrightarrow> d < 59 + l \<Longrightarrow> month_of_day d l = 1"
  "0 \<le> l \<Longrightarrow> l \<le> 1 \<Longrightarrow> 59 + l \<le> d \<Longrightarrow> d < 90 + l \<Longrightarrow> month_of_day d l = 2"
  "0 \<le> l \<Longrightarrow> l \<le> 1 \<Longrightarrow> 90 + l \<le> d \<Longrightarrow> d < 120 + l \<Longrightarrow> month_of_day d l = 3"
  "0 \<le> l \<Longrightarrow> l \<le> 1 \<Longrightarrow> 120 + l \<le> d \<Longrightarrow> d < 151 + l \<Longrightarrow> month_of_day d l = 4"
  "0 \<le> l \<Longrightarrow> l \<le> 1 \<Longrightarrow> 151 + l \<le> d \<Longrightarrow> d < 181 + l \<Longrightarrow> month_of_day d l = 5"
  "0 \<le> l \<Longrightarrow> l \<le> 1 \<Longrightarrow> 181 + l \<le> d \<Longrightarrow> d < 212 + l \<Longrightarrow> month_of_day d l = 6"
  "0 \<le> l \<Longrightarrow> l \<le> 1 \<Longrightarrow> 212 + l \<le> d \<Longrightarrow> d < 243 + l \<Longrightarrow> month_of_day d l = 7"
  "0 \<le> l \<Longrightarrow> l \<le> 1 \<Longrightarrow> 243 + l \<le> d \<Longrightarrow> d < 273 + l \<Longrightarrow> month_of_day d l = 8"
  "0 \<le> l \<Longrightarrow> l \<le> 1 \<Longrightarrow> 273 + l \<le> d \<Longrightarrow> d < 304 + l \<Longrightarrow> month_of_day d l = 9"
  "0 \<le> l \<Longrightarrow> l \<le> 1 \<Longrightarrow> 304 + l \<le> d \<Longrightarrow> d < 334 + l \<Longrightarrow> month_of_day d l = 10"
  "0 \<le> l \<Longrightarrow> l \<le> 1 \<Longrightarrow> 334 + l \<le> d \<Longrightarrow> d < 365 + l \<Longrightarrow> month_of_day d l = 11"
  by (simp_all add: month_of_day_def)

lemma month_of_day_eqI:
  assumes "0 \<le> m" "m \<le> 11" "0 \<le> l" "l \<le> 1"
    and "month_start m l \<le> d" "d < month_start m l + month_len m l"
  shows "month_of_day d l = m"
  using month_cases [OF assms(1,2)] assms(3-)
  by (elim disjE) (simp_all add: month_start_values month_len_values month_of_day_values)

lemma month_cover:
  fixes d l :: int
  shows "0 \<le> d \<Longrightarrow> d < 365 + l \<Longrightarrow> 0 \<le> l \<Longrightarrow> l \<le> 1 \<Longrightarrow>
      (0 \<le> d \<and> d < 31) \<or> (31 \<le> d \<and> d < 59 + l) \<or> (59 + l \<le> d
      \<and> d < 90 + l) \<or> (90 + l \<le> d \<and> d < 120 + l) \<or> (120 + l \<le> d \<and>
      d < 151 + l) \<or> (151 + l \<le> d \<and> d < 181 + l) \<or> (181 + l \<le> d \<and> d <
      212 + l) \<or> (212 + l \<le> d \<and> d < 243 + l) \<or> (243 + l \<le> d \<and> d < 273
      + l) \<or> (273 + l \<le> d \<and> d < 304 + l) \<or> (304 + l \<le> d \<and> d < 334 + l)
      \<or> (334 + l \<le> d \<and> d < 365 + l)"
  by linarith

lemma month_of_day_props:
  assumes "0 \<le> d" "d < 365 + l" "0 \<le> l" "l \<le> 1"
  shows "0 \<le> month_of_day d l \<and> month_of_day d l \<le> 11
         \<and> month_start (month_of_day d l) l \<le> d
         \<and> d < month_start (month_of_day d l) l + month_len (month_of_day d l) l"
  using month_cover [OF assms] assms(3,4)
  by (elim disjE conjE) (simp_all add: month_of_day_values month_start_values month_len_values)

lemma month_end_le:
  assumes "0 \<le> m" "m \<le> 11" "0 \<le> l" "l \<le> 1"
  shows "0 \<le> month_start m l" "month_start m l + month_len m l \<le> 365 + l"
  using month_cases [OF assms(1,2)] assms(3,4)
  by (elim disjE; simp add: month_start_values month_len_values)+

lemma month_start_next:
  assumes "0 \<le> m" "m \<le> 10"
  shows "month_start (m + 1) l = month_start m l + month_len m l"
proof -
  from assms have "0 \<le> m" "m \<le> 11" by simp_all
  from month_cases [OF this] assms(2) show ?thesis
    by (elim disjE) (simp_all add: month_start_values month_len_values)
qed

lemma InLeapYear_range: "0 \<le> InLeapYear t" "InLeapYear t \<le> 1"
  by (simp_all add: InLeapYear_def)

lemma DayWithinYear_bounds:
  "0 \<le> DayWithinYear t" "DayWithinYear t < 365 + InLeapYear t"
  using YearFromTime_spec [of t]
  by (auto simp: DayWithinYear_def InLeapYear_def DayFromYear_Suc split: if_splits)

lemma MonthFromTime_props:
  "0 \<le> MonthFromTime t" "MonthFromTime t \<le> 11"
  "month_start (MonthFromTime t) (InLeapYear t) \<le> DayWithinYear t"
  "DayWithinYear t < month_start (MonthFromTime t) (InLeapYear t)
                       + month_len (MonthFromTime t) (InLeapYear t)"
  using month_of_day_props [OF DayWithinYear_bounds InLeapYear_range, of t]
  by (simp_all add: MonthFromTime_def)

lemma DateFromTime_bounds:
  "1 \<le> DateFromTime t"
  "DateFromTime t \<le> DaysInMonth (YearFromTime t) (MonthFromTime t)"
  using MonthFromTime_props(3,4) [of t]
  by (simp_all add: DateFromTime_def DaysInMonth_def InLeapYear_def)

lemma MakeDay_in_year:
  "0 \<le> m \<Longrightarrow> m \<le> 11 \<Longrightarrow>
     MakeDay y m date = DayFromYear y + month_start m (if isLeapYear y then 1 else 0) + date - 1"
  by (simp add: MakeDay_def Let_def div_pos_pos_trivial mod_pos_pos_trivial)

lemma MakeDay_before_January:
  "MakeDay y (- 1) date
     = DayFromYear (y - 1) + month_start 11 (if isLeapYear (y - 1) then 1 else 0) + date - 1"
  by (simp add: MakeDay_def Let_def)

lemma TimeWithinDay_bounds: "0 \<le> TimeWithinDay t" "TimeWithinDay t < msPerDay"
  by (simp_all add: TimeWithinDay_def msPerDay_def)

lemma Day_MakeDate:
  assumes "0 \<le> tod" "tod < msPerDay"
  shows "Day (MakeDate d tod) = d" "TimeWithinDay (MakeDate d tod) = tod"
proof -
  have e: "MakeDate d tod = msPerDay * d + tod" by (simp add: MakeDate_def mult.commute)
  show "Day (MakeDate d tod) = d"
    unfolding Day_def using e assms by (rule int_div_pos_eq)
  show "TimeWithinDay (MakeDate d tod) = tod"
    unfolding TimeWithinDay_def using e assms by (rule int_mod_pos_eq)
qed

lemma MakeDate_Day: "MakeDate (Day t) (TimeWithinDay t) = t"
  by (simp add: MakeDate_def Day_def TimeWithinDay_def)

lemma Day_of_now:
  "Day t = DayFromYear (YearFromTime t)
            + month_start (MonthFromTime t) (InLeapYear t) + DateFromTime t - 1"
  by (simp add: DateFromTime_def DayWithinYear_def)

lemma roundtrip:
  assumes m: "0 \<le> m" "m \<le> 11"
    and d: "1 \<le> date" "date \<le> DaysInMonth y m"
    and tod: "0 \<le> tod" "tod < msPerDay"
  shows "YearFromTime (MakeDate (MakeDay y m date) tod) = y"
    and "MonthFromTime (MakeDate (MakeDay y m date) tod) = m"
    and "DateFromTime (MakeDate (MakeDay y m date) tod) = date"
    and "TimeWithinDay (MakeDate (MakeDay y m date) tod) = tod"
proof -
  let ?t = "MakeDate (MakeDay y m date) tod"
  define l :: int where "l = (if isLeapYear y then 1 else 0)"
  have l: "0 \<le> l" "l \<le> 1" by (simp_all add: l_def)
  have day: "Day ?t = DayFromYear y + month_start m l + date - 1"
    using Day_MakeDate [OF tod] MakeDay_in_year [OF m] by (simp add: l_def)
  note me = month_end_le [OF m l]
  have len: "date \<le> month_len m l" using d by (simp add: DaysInMonth_def l_def)
  have next_year: "DayFromYear (y + 1) = DayFromYear y + 365 + l"
    by (simp add: DayFromYear_Suc l_def)
  show y: "YearFromTime ?t = y"
  proof (rule YearFromTime_eqI)
    show "DayFromYear y \<le> Day ?t" using me d by (simp add: day)
    show "Day ?t < DayFromYear (y + 1)" using me len by (simp add: day next_year)
  qed
  have dwy: "DayWithinYear ?t = month_start m l + date - 1"
    by (simp add: DayWithinYear_def y day)
  have leap: "InLeapYear ?t = l" by (simp add: InLeapYear_def y l_def)
  show mm: "MonthFromTime ?t = m"
    unfolding MonthFromTime_def leap dwy
    using m l by (rule month_of_day_eqI) (use d len in simp_all)
  show "DateFromTime ?t = date"
    by (simp add: DateFromTime_def mm dwy leap)
  show "TimeWithinDay ?t = tod"
    by (rule Day_MakeDate [OF tod])
qed


lemma leapbit: "(if isLeapYear (YearFromTime t) then 1 else 0) = InLeapYear t"
  by (simp add: InLeapYear_def)

lemma MakeDay_shift_date:
  "MakeDay (YearFromTime t) (MonthFromTime t) (DateFromTime t + k) = Day t + k"
  using MakeDay_in_year [where m = "MonthFromTime t" and y = "YearFromTime t"
      and date = "DateFromTime t + k", OF MonthFromTime_props(1,2)]
  by (simp add: leapbit Day_of_now [of t])

lemma MakeDate_shift: "MakeDate (Day t + k) (TimeWithinDay t) = t + k * msPerDay"
  using MakeDate_Day [of t] by (simp add: MakeDate_def algebra_simps)

lemma setDate_week:
  "setDate z now (getDate z now - 7) = UTC z (LocalTime z now - 7 * msPerDay)"
  using MakeDay_shift_date [of "LocalTime z now" "- 7"]
    MakeDate_shift [of "LocalTime z now" "- 7"]
  by (simp add: setDate_def getDate_def Let_def)

lemma midnight: "MakeDate (Day t) 0 = t - TimeWithinDay t"
  using MakeDate_Day [of t] by (simp add: MakeDate_def)

lemma new_Date_today:
  assumes "0 \<le> LocalTime z now"
  shows "new_Date z (getFullYear z now) (getMonth z now) (getDate z now)
           = UTC z (LocalTime z now - TimeWithinDay (LocalTime z now))"
proof -
  from YearFromTime_ge_1970 [OF assms] have "\<not> YearFromTime (LocalTime z now) \<le> 99"
    by simp
  then show ?thesis
    using MakeDay_shift_date [of "LocalTime z now" 0]
    by (simp add: new_Date_def getFullYear_def getMonth_def getDate_def Let_def midnight)
qed

lemma midnight_fields:
  "TimeWithinDay (t - TimeWithinDay t) = 0" "Day (t - TimeWithinDay t) = Day t"
proof -
  have "t - TimeWithinDay t = MakeDate (Day t) 0" by (simp add: midnight)
  then show "TimeWithinDay (t - TimeWithinDay t) = 0" "Day (t - TimeWithinDay t) = Day t"
    using Day_MakeDate [of 0 "Day t"] by (simp_all add: msPerDay_def)
qed

lemma setMonth_previous:
  fixes t :: int
  defines "Y \<equiv> YearFromTime t" and "M \<equiv> MonthFromTime t" and "D \<equiv> DateFromTime t"
  defines "prevY \<equiv> (if M = 0 then Y - 1 else Y)" and "prevM \<equiv> (if M = 0 then 11 else M - 1)"
  defines "s \<equiv> MakeDate (MakeDay Y (M - 1) D) (TimeWithinDay t)"
  shows "TimeWithinDay s = TimeWithinDay t"
    and "D \<le> DaysInMonth prevY prevM \<Longrightarrow>
           YearFromTime s = prevY \<and> MonthFromTime s = prevM \<and> DateFromTime s = D"
    and "DaysInMonth prevY prevM < D \<Longrightarrow>
           YearFromTime s = Y \<and> MonthFromTime s = M \<and> DateFromTime s = D - DaysInMonth prevY prevM"
proof -
  note tod = TimeWithinDay_bounds [of t]
  have M: "0 \<le> M" "M \<le> 11" unfolding M_def by (rule MonthFromTime_props)+
  have D: "1 \<le> D" "D \<le> DaysInMonth Y M"
    unfolding D_def Y_def M_def by (rule DateFromTime_bounds)+
  show "TimeWithinDay s = TimeWithinDay t"
    unfolding s_def by (rule Day_MakeDate [OF tod])
  have prev: "0 \<le> prevM" "prevM \<le> 11" using M by (simp_all add: prevM_def)
  have md: "MakeDay Y (M - 1) D = MakeDay prevY prevM D"
  proof (cases "M = 0")
    case True
    then show ?thesis
      by (simp add: prevY_def prevM_def MakeDay_before_January MakeDay_in_year)
  next
    case False
    then show ?thesis by (simp add: prevY_def prevM_def)
  qed
  show "YearFromTime s = prevY \<and> MonthFromTime s = prevM \<and> DateFromTime s = D"
    if "D \<le> DaysInMonth prevY prevM"
    unfolding s_def md using roundtrip [OF prev D(1) that tod] by simp
  show "YearFromTime s = Y \<and> MonthFromTime s = M \<and> DateFromTime s = D - DaysInMonth prevY prevM"
    if over: "DaysInMonth prevY prevM < D"
  proof -
    have nz: "M \<noteq> 0"
    proof
      assume "M = 0"
      with D over show False by (simp add: prevM_def DaysInMonth_def month_len_values)
    qed
    then have p: "prevY = Y" "prevM = M - 1" by (simp_all add: prevY_def prevM_def)
    have m1: "0 \<le> M - 1" "M - 1 \<le> 10" using M nz by simp_all
    have m1': "0 \<le> M - 1" "M - 1 \<le> 11" using M nz by simp_all
    have nonneg: "0 \<le> DaysInMonth Y (M - 1)"
      using month_cases [OF m1'] by (elim disjE) (simp_all add: DaysInMonth_def month_len_values)
    have "MakeDay Y (M - 1) D = MakeDay Y M (D - DaysInMonth Y (M - 1))"
      using month_start_next [OF m1, of "if isLeapYear Y then 1 else 0"]
      by (simp add: MakeDay_in_year [OF m1'] MakeDay_in_year [OF M] DaysInMonth_def)
    moreover have "1 \<le> D - DaysInMonth Y (M - 1)" using over by (simp add: p)
    moreover have "D - DaysInMonth Y (M - 1) \<le> DaysInMonth Y M" using D nonneg by simp
    ultimately show ?thesis
      unfolding s_def using roundtrip [OF M _ _ tod, of "D - DaysInMonth Y (M - 1)" Y]
      by (simp add: p)
  qed
qed



lemmas civil_eval = MakeDate_def MakeDay_def DayFromYear_def month_start_values isLeapYear_def
  DaysInMonth_def month_len_values msPerDay_def

lemma fields_noon_2026_03_31:
  "YearFromTime noon_2026_03_31 = 2026" "MonthFromTime noon_2026_03_31 = 2"
  "DateFromTime noon_2026_03_31 = 31" "TimeWithinDay noon_2026_03_31 = 43200000"
  using roundtrip [of 2 31 2026 43200000]
  by (simp_all add: civil_eval noon_2026_03_31_def)

lemma fields_noon_2026_03_03:
  "MonthFromTime 1772539200000 = 2" "DateFromTime 1772539200000 = 3"
  using roundtrip [of 2 3 2026 43200000]
  by (simp_all add: civil_eval)

lemma fields_noon_2026_01_23:
  "YearFromTime noon_2026_01_23 = 2026" "MonthFromTime noon_2026_01_23 = 0"
  "DateFromTime noon_2026_01_23 = 23" "TimeWithinDay noon_2026_01_23 = 43200000"
  using roundtrip [of 0 23 2026 43200000]
  by (simp_all add: civil_eval noon_2026_01_23_def)

lemma zone_utc_simps: "LocalTime zone_utc t = t" "UTC zone_utc t = t"
  by (simp_all add: LocalTime_def UTC_def zone_utc_def)

text \<open>
  Claim C9, as the specification states it, fails in two places.  For \<open>month\<close>, on
  31 March 2026 at noon (UTC host) \<open>setMonth\<close> asks for 31 February, which rolls over to
  3 March: the start lies in March, the month of now, not one month back.  For \<open>week\<close>,
  on 1 April 2026 at noon UTC, in a zone that moved its clocks forward on 29 March, the
  start is 25 March at the same local time, which is one hour less than 7 days before
  now.
\<close>

theorem C9_overflow_and_dst_counterexample:
  "dr_startDate (getDateRange zone_utc noon_2026_03_31 (ascii ''month'')) = Some 1772539200000
   \<and> getMonth zone_utc noon_2026_03_31 = 2
   \<and> getMonth zone_utc 1772539200000 = 2
   \<and> getDate zone_utc 1772539200000 = 3
   \<and> dr_startDate (getDateRange zone_dst noon_2026_04_01 (ascii ''week'')) = Some 1774443600000
   \<and> noon_2026_04_01 - 7 * msPerDay = 1774440000000"
proof -
  have m: "dr_startDate (getDateRange zone_utc noon_2026_03_31 (ascii ''month'')) = Some 1772539200000"
    by (simp add: getDateRange_def ascii_def setMonth_def getMonth_def zone_utc_simps
          fields_noon_2026_03_31 civil_eval)
  have f: "getMonth zone_utc noon_2026_03_31 = 2" "getMonth zone_utc 1772539200000 = 2"
    "getDate zone_utc 1772539200000 = 3"
    by (simp_all add: getMonth_def getDate_def zone_utc_simps fields_noon_2026_03_31
          fields_noon_2026_03_03)
  have w: "dr_startDate (getDateRange zone_dst noon_2026_04_01 (ascii ''week'')) = Some 1774443600000"
    by (simp add: getDateRange_def ascii_def setDate_week LocalTime_def UTC_def zone_dst_def
          noon_2026_04_01_def msPerDay_def)
  have d: "noon_2026_04_01 - 7 * msPerDay = 1774440000000"
    by (simp add: noon_2026_04_01_def msPerDay_def)
  from m f w d show ?thesis by simp
qed

text \<open>
  Claim C9, amended.  For every invocation time whose local time is at or after the
  epoch, with \<open>t\<close> the local time of now: \<open>all\<close> gives the empty object; \<open>today\<close> starts
  at local midnight of the current date (\<open>t\<close> less its time within the day, read in the
  host's zone); \<open>week\<close> starts at the local time \<open>t\<close> less 7 days, which is exactly 7
  days before now when the zone's offset is the same at both moments; \<open>month\<close> starts at
  the local time that \<open>setMonth(month - 1)\<close> gives: the same time of day, on the same day
  of the previous month (December of the year before for January) when the previous
  month has that day, and otherwise as many days into the current month as the
  previous month falls short.  The end is now for the three bounded periods.
\<close>

theorem C9_date_ranges:
  assumes "0 \<le> LocalTime z now"
  shows
    "(let t = LocalTime z now; Y = YearFromTime t; M = MonthFromTime t; D = DateFromTime t;
          prevY = (if M = 0 then Y - 1 else Y); prevM = (if M = 0 then 11 else M - 1);
          s = MakeDate (MakeDay Y (M - 1) D) (TimeWithinDay t)
      in getDateRange z now (ascii ''all'') = \<lparr>dr_startDate = None, dr_endDate = None\<rparr>
         \<and> getDateRange z now (ascii ''today'')
             = \<lparr>dr_startDate = Some (UTC z (t - TimeWithinDay t)), dr_endDate = Some now\<rparr>
         \<and> TimeWithinDay (t - TimeWithinDay t) = 0 \<and> Day (t - TimeWithinDay t) = Day t
         \<and> getDateRange z now (ascii ''week'')
             = \<lparr>dr_startDate = Some (UTC z (t - 7 * msPerDay)), dr_endDate = Some now\<rparr>
         \<and> (tza_local z (t - 7 * msPerDay) = tza_utc z now \<longrightarrow>
              dr_startDate (getDateRange z now (ascii ''week'')) = Some (now - 7 * msPerDay))
         \<and> getDateRange z now (ascii ''month'')
             = \<lparr>dr_startDate = Some (UTC z s), dr_endDate = Some now\<rparr>
         \<and> TimeWithinDay s = TimeWithinDay t
         \<and> (D \<le> DaysInMonth prevY prevM \<longrightarrow>
              YearFromTime s = prevY \<and> MonthFromTime s = prevM \<and> DateFromTime s = D)
         \<and> (DaysInMonth prevY prevM < D \<longrightarrow>
              YearFromTime s = Y \<and> MonthFromTime s = M
              \<and> DateFromTime s = D - DaysInMonth prevY prevM))"
proof -
  have ne: "ascii ''all'' \<noteq> ascii ''today''" "ascii ''all'' \<noteq> ascii ''week''"
    "ascii ''all'' \<noteq> ascii ''month''" "ascii ''week'' \<noteq> ascii ''today''"
    "ascii ''month'' \<noteq> ascii ''today''" "ascii ''month'' \<noteq> ascii ''week''"
    by (simp_all add: ascii_def)
  have a: "getDateRange z now (ascii ''all'') = \<lparr>dr_startDate = None, dr_endDate = None\<rparr>"
    by (simp add: getDateRange_def ne)
  have t: "getDateRange z now (ascii ''today'')
      = \<lparr>dr_startDate = Some (UTC z (LocalTime z now - TimeWithinDay (LocalTime z now))),
         dr_endDate = Some now\<rparr>"
    by (simp add: getDateRange_def new_Date_today [OF assms])
  have w: "getDateRange z now (ascii ''week'')
      = \<lparr>dr_startDate = Some (UTC z (LocalTime z now - 7 * msPerDay)), dr_endDate = Some now\<rparr>"
    by (simp add: getDateRange_def ne setDate_week)
  have w': "dr_startDate (getDateRange z now (ascii ''week'')) = Some (now - 7 * msPerDay)"
    if "tza_local z (LocalTime z now - 7 * msPerDay) = tza_utc z now"
    using that by (simp add: w UTC_def) (simp add: LocalTime_def)
  have m: "getDateRange z now (ascii ''month'')
      = \<lparr>dr_startDate = Some (UTC z (MakeDate (MakeDay (YearFromTime (LocalTime z now))
            (MonthFromTime (LocalTime z now) - 1) (DateFromTime (LocalTime z now)))
            (TimeWithinDay (LocalTime z now)))), dr_endDate = Some now\<rparr>"
    by (simp add: getDateRange_def ne setMonth_def getMonth_def Let_def)
  note sm = setMonth_previous [of "LocalTime z now"]
  note mf = midnight_fields [of "LocalTime z now"]
  show ?thesis
    unfolding Let_def
    using a t w w' m sm mf by (intro conjI impI) simp_all
qed

theorem C9_date_ranges_witness:
  "getDateRange zone_utc noon_2026_01_23 (ascii ''today'')
     = \<lparr>dr_startDate = Some 1769126400000, dr_endDate = Some noon_2026_01_23\<rparr>
   \<and> getDateRange zone_utc noon_2026_01_23 (ascii ''week'')
     = \<lparr>dr_startDate = Some (noon_2026_01_23 - 7 * msPerDay), dr_endDate = Some noon_2026_01_23\<rparr>
   \<and> getDateRange zone_utc noon_2026_01_23 (ascii ''month'')
     = \<lparr>dr_startDate = Some 1766491200000, dr_endDate = Some noon_2026_01_23\<rparr>
   \<and> YearFromTime 1766491200000 = 2025 \<and> MonthFromTime 1766491200000 = 11
   \<and> DateFromTime 1766491200000 = 23
   \<and> getDateRange zone_utc noon_2026_03_31 (ascii ''month'')
     = \<lparr>dr_startDate = Some 1772539200000, dr_endDate = Some noon_2026_03_31\<rparr>
   \<and> YearFromTime 1772539200000 = 2026 \<and> MonthFromTime 1772539200000 = 2
   \<and> DateFromTime 1772539200000 = 3"
proof -
  have h: "0 \<le> LocalTime zone_utc noon_2026_01_23" "0 \<le> LocalTime zone_utc noon_2026_03_31"
    by (simp_all add: zone_utc_simps noon_2026_01_23_def noon_2026_03_31_def)
  have s: "MakeDate (MakeDay 2026 (- 1) 23) 43200000 = 1766491200000"
    "MakeDate (MakeDay 2026 1 31) 43200000 = 1772539200000"
    by (simp_all add: civil_eval)
  have le: "(23::int) \<le> DaysInMonth (2026 - 1) 11" "DaysInMonth 2026 1 < (31::int)"
    "31 - DaysInMonth 2026 1 = (3::int)"
    by (simp_all add: DaysInMonth_def month_len_values isLeapYear_def)
  note t = C9_date_ranges [OF h(1), unfolded Let_def zone_utc_simps fields_noon_2026_01_23,
      simplified]
  note u = C9_date_ranges [OF h(2), unfolded Let_def zone_utc_simps fields_noon_2026_03_31,
      simplified]
  from t le have a: "getDateRange zone_utc noon_2026_01_23 (ascii ''today'')
     = \<lparr>dr_startDate = Some 1769126400000, dr_endDate = Some noon_2026_01_23\<rparr>
   \<and> getDateRange zone_utc noon_2026_01_23 (ascii ''week'')
     = \<lparr>dr_startDate = Some (noon_2026_01_23 - 7 * msPerDay), dr_endDate = Some noon_2026_01_23\<rparr>
   \<and> getDateRange zone_utc noon_2026_01_23 (ascii ''month'')
     = \<lparr>dr_startDate = Some 1766491200000, dr_endDate = Some noon_2026_01_23\<rparr>
   \<and> YearFromTime 1766491200000 = 2025 \<and> MonthFromTime 1766491200000 = 11
   \<and> DateFromTime 1766491200000 = 23"
    by (simp add: s noon_2026_01_23_def)
  from u le have b: "getDateRange zone_utc noon_2026_03_31 (ascii ''month'')
     = \<lparr>dr_startDate = Some 1772539200000, dr_endDate = Some noon_2026_03_31\<rparr>
   \<and> YearFromTime 1772539200000 = 2026 \<and> MonthFromTime 1772539200000 = 2
   \<and> DateFromTime 1772539200000 = 3"
    by (simp add: s)
  from a b show ?thesis by simp
qed

end
